theory Spec2Isabelle
  imports Main
begin

section \<open>Jobs and the crawler's user-interface state\<close>

text \<open>
  A job as the crawl records it: \<^verbatim>\<open>{ title, link: postUrl, lastDate }\<close>. The deadline
  is a JavaScript \<^verbatim>\<open>Date\<close>, modelled by its time value (milliseconds since the epoch,
  UTC); an invalid Date never reaches a job, since every path that stores one checks
  \<^verbatim>\<open>!isNaN(date.getTime())\<close> first.
\<close>

record job =
  title :: string
  link :: string
  lastDate :: int

text \<open>
  The state of \<^verbatim>\<open>useReducer(crawlerReducer, {...})\<close> in the reducer-based variant of the
  application, with the fields of its initial state.
\<close>

record crawler_state =
  url :: string
  jobs :: "job list"
  isLoading :: bool
  status :: string
  error :: string
  page :: int
  filterDate :: string
  showNextSixMonths :: bool

text \<open>
  The actions, one constructor per \<^verbatim>\<open>action.type\<close> with its payload; \<open>OTHER\<close> stands
  for every type the \<^verbatim>\<open>switch\<close> sends to \<^verbatim>\<open>default\<close>.
\<close>

datatype action =
    START_SCAN
  | UPDATE_STATUS string
  | SET_JOBS "job list"
  | SET_ERROR string
  | SET_PAGE int
  | SET_URL string
  | SET_FILTER_DATE string
  | TOGGLE_SIX_MONTHS_FILTER bool
  | OTHER

fun crawlerReducer :: "crawler_state \<Rightarrow> action \<Rightarrow> crawler_state" where
  "crawlerReducer state START_SCAN =
     state\<lparr>isLoading := True,
           status := ''Step 1/3: Fetching main page to find job links...'',
           jobs := [],
           error := [],
           page := 1\<rparr>"
| "crawlerReducer state (UPDATE_STATUS payload) = state\<lparr>status := payload\<rparr>"
| "crawlerReducer state (SET_JOBS payload) =
     state\<lparr>jobs := payload, isLoading := False, status := []\<rparr>"
| "crawlerReducer state (SET_ERROR payload) =
     state\<lparr>error := payload, isLoading := False, status := []\<rparr>"
| "crawlerReducer state (SET_PAGE payload) = state\<lparr>page := payload\<rparr>"
| "crawlerReducer state (SET_URL payload) = state\<lparr>url := payload\<rparr>"
| "crawlerReducer state (SET_FILTER_DATE payload) = state\<lparr>filterDate := payload\<rparr>"
| "crawlerReducer state (TOGGLE_SIX_MONTHS_FILTER payload) =
     state\<lparr>showNextSixMonths := payload\<rparr>"
| "crawlerReducer state OTHER = state"

definition initialState :: crawler_state where
  "initialState =
     \<lparr>url = [], jobs = [], isLoading = False, status = [], error = [], page = 1,
      filterDate = [], showNextSixMonths = False\<rparr>"

section \<open>Strings\<close>

text \<open>
  A JavaScript string is a sequence of UTF-16 code units. The model's strings are lists of
  \<^typ>\<open>char\<close>, read as the code units 0 to 255 (Latin-1); every literal of the program
  (keywords, trigger phrases, month names, separators) is ASCII.
\<close>

definition isDigit :: "char \<Rightarrow> bool" where
  "isDigit c = (c \<in> set ''0123456789'')"

definition isLowerAZ :: "char \<Rightarrow> bool" where
  "isLowerAZ c = (c \<in> set ''abcdefghijklmnopqrstuvwxyz'')"

definition isUpperAZ :: "char \<Rightarrow> bool" where
  "isUpperAZ c = (c \<in> set ''ABCDEFGHIJKLMNOPQRSTUVWXYZ'')"

definition isLetter :: "char \<Rightarrow> bool" where
  "isLetter c = (isLowerAZ c \<or> isUpperAZ c)"

text \<open>\<^verbatim>\<open>\w\<close> of a regular expression: \<^verbatim>\<open>[A-Za-z0-9_]\<close>.\<close>

definition isWordChar :: "char \<Rightarrow> bool" where
  "isWordChar c = (isLowerAZ c \<or> isUpperAZ c \<or> isDigit c \<or> c = CHR ''_'')"

text \<open>
  White space and line terminators (\<^verbatim>\<open>\s\<close>, and what \<^verbatim>\<open>trim\<close> and \<^verbatim>\<open>parseInt\<close> strip):
  tab, line feed, vertical tab, form feed, carriage return, space and the no-break space;
  the other members are code units above 255.
\<close>

definition isSpace :: "char \<Rightarrow> bool" where
  "isSpace c = (c \<in> set [CHR 0x09, CHR 0x0A, CHR 0x0B, CHR 0x0C, CHR 0x0D, CHR 0x20, CHR 0xA0])"

definition asciiLower :: "char \<Rightarrow> char" where
  "asciiLower c =
     (case map_of (zip ''ABCDEFGHIJKLMNOPQRSTUVWXYZ'' ''abcdefghijklmnopqrstuvwxyz'') c of
        Some l \<Rightarrow> l | None \<Rightarrow> c)"

definition asciiUpper :: "char \<Rightarrow> char" where
  "asciiUpper c =
     (case map_of (zip ''abcdefghijklmnopqrstuvwxyz'' ''ABCDEFGHIJKLMNOPQRSTUVWXYZ'') c of
        Some u \<Rightarrow> u | None \<Rightarrow> c)"

text \<open>
  \<^verbatim>\<open>String.prototype.toLowerCase\<close> on the code units 0 to 255: the ASCII capitals, and
  the Latin-1 capitals 0xC0 to 0xDE except the multiplication sign 0xD7, move up by 32.
\<close>

definition toLowerChar :: "char \<Rightarrow> char" where
  "toLowerChar c =
     (let n = (of_char c :: nat) in
      if isUpperAZ c then asciiLower c
      else if 192 \<le> n \<and> n \<le> 222 \<and> n \<noteq> 215 then char_of (n + 32)
      else c)"

definition toLowerCase :: "string \<Rightarrow> string" where
  "toLowerCase s = map toLowerChar s"

definition startsWith :: "string \<Rightarrow> string \<Rightarrow> bool" where
  "startsWith s p = (take (length p) s = p)"

text \<open>\<^verbatim>\<open>s.includes(k)\<close>: \<open>k\<close> occurs in \<open>s\<close> as a contiguous substring.\<close>

fun includes_str :: "string \<Rightarrow> string \<Rightarrow> bool" where
  "includes_str [] k = (k = [])"
| "includes_str (x # xs) k = (startsWith (x # xs) k \<or> includes_str xs k)"

definition trim :: "string \<Rightarrow> string" where
  "trim s = rev (dropWhile isSpace (rev (dropWhile isSpace s)))"

text \<open>\<^verbatim>\<open>s.replace(/, /g, ' ')\<close>: every comma followed by a space becomes a space, left to right.\<close>

fun replaceCommaSpace :: "string \<Rightarrow> string" where
  "replaceCommaSpace (a # b # s) =
     (if a = CHR '','' \<and> b = CHR '' '' then CHR '' '' # replaceCommaSpace s
      else a # replaceCommaSpace (b # s))"
| "replaceCommaSpace s = s"

fun indexOf :: "'a list \<Rightarrow> 'a \<Rightarrow> nat" where
  "indexOf [] c = 0"
| "indexOf (x # xs) c = (if x = c then 0 else Suc (indexOf xs c))"

definition digitVal :: "char \<Rightarrow> nat" where
  "digitVal c = indexOf ''0123456789'' c"

definition digitChar :: "nat \<Rightarrow> char" where
  "digitChar n = ''0123456789'' ! (n mod 10)"

text \<open>
  \<^verbatim>\<open>parseInt(s, 10)\<close>: leading white space and one sign are skipped, then the longest run of
  decimal digits is read; no digit gives NaN (\<open>None\<close>). The program applies it to captures
  of at most four digits, far below the 2^53 where a JavaScript number stops being exact.
\<close>

definition parseInt10 :: "string \<Rightarrow> int option" where
  "parseInt10 s =
     (let t = dropWhile isSpace s;
          neg = (t \<noteq> [] \<and> hd t = CHR ''-'');
          u = (if t \<noteq> [] \<and> (hd t = CHR ''-'' \<or> hd t = CHR ''+'') then tl t else t);
          ds = takeWhile isDigit u
      in if ds = [] then None
         else Some ((if neg then - 1 else 1) * int (foldl (\<lambda>a d. 10 * a + digitVal d) 0 ds)))"

text \<open>
  \<^verbatim>\<open>parseInt(x, 10)\<close> where \<open>x\<close> may be \<^verbatim>\<open>undefined\<close> (a capture group that did not take
  part in the match): \<^verbatim>\<open>undefined\<close> is converted to the string "undefined", which has no
  digit.
\<close>

definition parseIntArg :: "string option \<Rightarrow> int option" where
  "parseIntArg x = (case x of None \<Rightarrow> None | Some s \<Rightarrow> parseInt10 s)"

section \<open>Regular expressions with JavaScript's backtracking order\<close>

text \<open>
  The character classes and the expressions the program's patterns are built from. A class
  is a union of items; a quantifier applies to a class (\<open>Repeat\<close>, greedy or lazy, with
  its bounds) or makes a subexpression optional (\<open>Opt\<close>, greedy); \<open>Grp n\<close> is the n-th
  capture group.
\<close>

datatype cset = Digit | WordCh | Space | NonSpace | LowerAZ | OneOf string

datatype rx =
    Empty
  | Cls "cset list"
  | Repeat "cset list" nat "nat option" bool
  | Seq rx rx
  | Alt rx rx
  | Opt rx
  | Grp nat rx

fun inCset :: "cset \<Rightarrow> char \<Rightarrow> bool" where
  "inCset Digit c = isDigit c"
| "inCset WordCh c = isWordChar c"
| "inCset Space c = isSpace c"
| "inCset NonSpace c = (\<not> isSpace c)"
| "inCset LowerAZ c = isLowerAZ c"
| "inCset (OneOf s) c = (c \<in> set s)"

text \<open>
  Membership of a code unit in a class. Under the flag \<^verbatim>\<open>i\<close> (without \<^verbatim>\<open>u\<close>) a code
  unit matches when some member of the class has the same canonical (upper-case) form; the
  classes here have ASCII letters only as case-bearing members, and a code unit above 127
  never canonicalizes to ASCII, so it is enough to try the code unit and its two ASCII
  case variants.
\<close>

definition inClass :: "bool \<Rightarrow> cset list \<Rightarrow> char \<Rightarrow> bool" where
  "inClass ic cs c =
     list_ex (\<lambda>k. inCset k c \<or> (ic \<and> (inCset k (asciiUpper c) \<or> inCset k (asciiLower c)))) cs"

type_synonym caps = "(nat \<times> string) list"

text \<open>
  The matcher returns, for a position (the rest of the input) and the captures so far,
  every way the expression can match there, in the order in which a backtracking matcher
  tries them: the head of the list is the match JavaScript reports. A greedy quantifier
  lists the longest repetition first, a lazy one the shortest; a greedy optional part is
  tried before it is skipped, and when it is skipped its groups stay undefined. The optional
  parts of the program's patterns cannot match the empty string, so the rule that rejects
  an empty iteration never applies.
\<close>

fun rmatch :: "bool \<Rightarrow> rx \<Rightarrow> string \<times> caps \<Rightarrow> (string \<times> caps) list" where
  "rmatch ic Empty st = [st]"
| "rmatch ic (Cls cs) (s, c) =
     (case s of [] \<Rightarrow> [] | x # xs \<Rightarrow> if inClass ic cs x then [(xs, c)] else [])"
| "rmatch ic (Repeat cs lo hi greedy) (s, c) =
     (let n = length (takeWhile (inClass ic cs) s);
          m = (case hi of None \<Rightarrow> n | Some h \<Rightarrow> min n h);
          ks = [lo..<Suc m]
      in map (\<lambda>k. (drop k s, c)) (if greedy then rev ks else ks))"
| "rmatch ic (Seq a b) st = concat (map (rmatch ic b) (rmatch ic a st))"
| "rmatch ic (Alt a b) st = rmatch ic a st @ rmatch ic b st"
| "rmatch ic (Opt a) st = rmatch ic a st @ [st]"
| "rmatch ic (Grp i a) (s, c) =
     map (\<lambda>(s', c'). (s', (i, take (length s - length s') s) # c')) (rmatch ic a (s, c))"

text \<open>
  \<^verbatim>\<open>s.match(re)\<close> for a pattern without the flag \<^verbatim>\<open>g\<close>: the first position from the left
  at which the pattern matches, with the captures of the first match there; \<open>None\<close> is
  the \<^verbatim>\<open>null\<close> of no match.
\<close>

fun rsearch :: "bool \<Rightarrow> rx \<Rightarrow> string \<Rightarrow> caps option" where
  "rsearch ic r [] = (case rmatch ic r ([], []) of [] \<Rightarrow> None | st # _ \<Rightarrow> Some (snd st))"
| "rsearch ic r (x # t) =
     (case rmatch ic r (x # t, []) of [] \<Rightarrow> rsearch ic r t | st # _ \<Rightarrow> Some (snd st))"

text \<open>\<^verbatim>\<open>parts[n]\<close>: the text of group \<open>n\<close>, or \<open>None\<close> for \<^verbatim>\<open>undefined\<close>.\<close>

definition cap :: "caps \<Rightarrow> nat \<Rightarrow> string option" where
  "cap parts n = map_of parts n"

definition chr :: "char \<Rightarrow> rx" where
  "chr c = Cls [OneOf [c]]"

definition seqs :: "rx list \<Rightarrow> rx" where
  "seqs rs = foldr Seq rs Empty"

definition lit :: "string \<Rightarrow> rx" where
  "lit s = seqs (map chr s)"

fun alts :: "rx list \<Rightarrow> rx" where
  "alts [] = Cls []"
| "alts [r] = r"
| "alts (r # rs) = Alt r (alts rs)"

section \<open>Dates\<close>

text \<open>
  A \<^verbatim>\<open>Date\<close> is its time value: an integral number of milliseconds since 1 January 1970
  UTC, or NaN, here \<open>None\<close>. The day and year arithmetic is ECMAScript's (Day,
  DaysInYear, DayFromYear, YearFromTime, MonthFromTime, DateFromTime, MakeDay, MakeDate,
  TimeClip), on integers: every number involved is far below 2^53.
\<close>

definition msPerDay :: int where
  "msPerDay = 86400000"

definition DaysInYear :: "int \<Rightarrow> int" where
  "DaysInYear y =
     (if y mod 4 \<noteq> 0 then 365 else if y mod 100 \<noteq> 0 then 366
      else if y mod 400 \<noteq> 0 then 365 else 366)"

definition DayFromYear :: "int \<Rightarrow> int" where
  "DayFromYear y =
     365 * (y - 1970) + (y - 1969) div 4 - (y - 1901) div 100 + (y - 1601) div 400"

text \<open>
  YearFromTime is specified as the largest year whose first day is not after the given day.
  It is computed from the mean year length of 146097/400 days, off by one at most.
\<close>

definition YearFromDay :: "int \<Rightarrow> int" where
  "YearFromDay d =
     (let y = 1970 + (400 * d) div 146097 in
      if DayFromYear (y + 1) \<le> d then y + 1
      else if DayFromYear y \<le> d then y
      else y - 1)"

definition leapDays :: "int \<Rightarrow> int" where
  "leapDays y = (if DaysInYear y = 366 then 1 else 0)"

text \<open>The day within the year on which each month (0 to 11) starts; \<open>l\<close> is 1 in a leap year.\<close>

definition monthStarts :: "int \<Rightarrow> int list" where
  "monthStarts l =
     [0, 31, 59 + l, 90 + l, 120 + l, 151 + l, 181 + l, 212 + l, 243 + l, 273 + l,
      304 + l, 334 + l]"

definition MonthFromDay :: "int \<Rightarrow> int" where
  "MonthFromDay d =
     (let y = YearFromDay d; w = d - DayFromYear y; l = leapDays y in
      if w < 31 then 0
      else if w < 59 + l then 1
      else if w < 90 + l then 2
      else if w < 120 + l then 3
      else if w < 151 + l then 4
      else if w < 181 + l then 5
      else if w < 212 + l then 6
      else if w < 243 + l then 7
      else if w < 273 + l then 8
      else if w < 304 + l then 9
      else if w < 334 + l then 10
      else 11)"

definition DateFromDay :: "int \<Rightarrow> int" where
  "DateFromDay d =
     (let y = YearFromDay d; w = d - DayFromYear y in
      w - monthStarts (leapDays y) ! nat (MonthFromDay d) + 1)"

text \<open>
  The UTC calendar date of a time value: \<^verbatim>\<open>(getUTCFullYear(), getUTCMonth() + 1, getUTCDate())\<close>.
\<close>

definition utcDate :: "int \<Rightarrow> int \<times> int \<times> int" where
  "utcDate t =
     (let d = t div msPerDay in (YearFromDay d, MonthFromDay d + 1, DateFromDay d))"

text \<open>
  MakeDay: the month may lie outside 0 to 11 and the date outside the month; both carry
  over into the following (or preceding) months and years, which is how a day that the
  month does not have rolls over.
\<close>

definition MakeDay :: "int \<Rightarrow> int \<Rightarrow> int \<Rightarrow> int" where
  "MakeDay year month date =
     (let ym = year + month div 12; mn = month mod 12 in
      DayFromYear ym + monthStarts (leapDays ym) ! nat mn + date - 1)"

definition TimeClip :: "int \<Rightarrow> int option" where
  "TimeClip t = (if \<bar>t\<bar> \<le> 8640000000000000 then Some t else None)"

text \<open>
  \<^verbatim>\<open>new Date(Date.UTC(year, month, day))\<close>. An argument that is NaN gives NaN; a year from
  0 to 99 stands for 1900 + year.
\<close>

definition DateUTC :: "int option \<Rightarrow> int option \<Rightarrow> int option \<Rightarrow> int option" where
  "DateUTC year month day =
     (case (year, month, day) of
        (Some y, Some m, Some d) \<Rightarrow>
          TimeClip (MakeDay (if 0 \<le> y \<and> y \<le> 99 then 1900 + y else y) m d * msPerDay)
      | _ \<Rightarrow> None)"

definition daysInMonth :: "int \<Rightarrow> int \<Rightarrow> int" where
  "daysInMonth y m = [31, 28 + leapDays y, 31, 30, 31, 30, 31, 31, 30, 31, 30, 31] ! nat (m - 1)"

text \<open>A day that exists: month 1 to 12, day 1 to the length of that month in that year.\<close>

definition validDate :: "int \<Rightarrow> int \<Rightarrow> int \<Rightarrow> bool" where
  "validDate y m d = (1 \<le> m \<and> m \<le> 12 \<and> 1 \<le> d \<and> d \<le> daysInMonth y m)"

text \<open>The time value of midnight UTC at the start of day \<open>d\<close> of month \<open>m\<close> (1 to 12) of year \<open>y\<close>.\<close>

definition utcMidnight :: "int \<Rightarrow> int \<Rightarrow> int \<Rightarrow> int" where
  "utcMidnight y m d = MakeDay y (m - 1) d * msPerDay"

text \<open>
  A date-only value, as the spec's CalendarDate: midnight UTC of a day in the years 0 to
  9999, the days that the date-only form \<^verbatim>\<open>YYYY-MM-DD\<close> can name.
\<close>

definition dateOnly :: "int \<Rightarrow> bool" where
  "dateOnly t = (t mod msPerDay = 0 \<and> 0 \<le> fst (utcDate t) \<and> fst (utcDate t) \<le> 9999)"

definition decimal :: "string \<Rightarrow> nat" where
  "decimal ds = foldl (\<lambda>a d. 10 * a + digitVal d) 0 ds"

text \<open>The decimal digits of \<open>n\<close>, padded with zeros to (and cut at) the width \<open>w\<close>.\<close>

definition pad :: "nat \<Rightarrow> nat \<Rightarrow> string" where
  "pad w n = map (\<lambda>i. digitChar (n div 10 ^ i)) (rev [0..<w])"

text \<open>
  \<^verbatim>\<open>date.toISOString().split('T')[0]\<close> for a valid date: the year with four digits, or
  with a sign and six digits outside 0 to 9999, then month and day with two digits.
\<close>

definition isoDatePart :: "int \<Rightarrow> string" where
  "isoDatePart t =
     (case utcDate t of (y, m, d) \<Rightarrow>
        (if 0 \<le> y \<and> y \<le> 9999 then pad 4 (nat y)
         else (if y < 0 then ''-'' else ''+'') @ pad 6 (nat \<bar>y\<bar>))
        @ ''-'' @ pad 2 (nat m) @ ''-'' @ pad 2 (nat d))"

text \<open>
  \<^verbatim>\<open>new Date(string)\<close>. ECMAScript fixes the result for the date-only form \<^verbatim>\<open>YYYY-MM-DD\<close>
  with legal elements: midnight UTC of that day. For every other string (other forms of
  the format, illegal elements, free text) the result is left to the host, a parameter of
  the model: \<open>host s\<close> is the time value the host's parser gives for \<open>s\<close>, \<open>None\<close> for an
  Invalid Date.
\<close>

definition parseIsoDateOnly :: "string \<Rightarrow> int option" where
  "parseIsoDateOnly s =
     (if length s = 10 \<and> s ! 4 = CHR ''-'' \<and> s ! 7 = CHR ''-''
         \<and> list_all isDigit (take 4 s @ take 2 (drop 5 s) @ drop 8 s)
      then
        (let y = int (decimal (take 4 s)); m = int (decimal (take 2 (drop 5 s)));
             d = int (decimal (drop 8 s))
         in if validDate y m d then Some (utcMidnight y m d) else None)
      else None)"

definition newDate :: "(string \<Rightarrow> int option) \<Rightarrow> string \<Rightarrow> int option" where
  "newDate host s = (case parseIsoDateOnly s of Some t \<Rightarrow> Some t | None \<Rightarrow> host s)"

section \<open>parseDate\<close>

text \<open>\<^verbatim>\<open>/(\d{1,2})[./-](\d{1,2})[./-](\d{2,4})/\<close>\<close>

definition dmyRx :: rx where
  "dmyRx =
     seqs [Grp 1 (Repeat [Digit] 1 (Some 2) True), Cls [OneOf ''./-''],
           Grp 2 (Repeat [Digit] 1 (Some 2) True), Cls [OneOf ''./-''],
           Grp 3 (Repeat [Digit] 2 (Some 4) True)]"

text \<open>\<^verbatim>\<open>/(?:(\d{1,2}) )?([a-z]{3,}) (\d{1,2})?(?:, )?(\d{4})/i\<close>\<close>

definition textRx :: rx where
  "textRx =
     seqs [Opt (seqs [Grp 1 (Repeat [Digit] 1 (Some 2) True), chr CHR '' '']),
           Grp 2 (Repeat [LowerAZ] 3 None True), chr CHR '' '',
           Opt (Grp 3 (Repeat [Digit] 1 (Some 2) True)),
           Opt (lit '', ''),
           Grp 4 (Repeat [Digit] 4 (Some 4) True)]"

text \<open>\<^verbatim>\<open>/(\d{4})[./-](\d{1,2})[./-](\d{1,2})/\<close>\<close>

definition ymdRx :: rx where
  "ymdRx =
     seqs [Grp 1 (Repeat [Digit] 4 (Some 4) True), Cls [OneOf ''./-''],
           Grp 2 (Repeat [Digit] 1 (Some 2) True), Cls [OneOf ''./-''],
           Grp 3 (Repeat [Digit] 1 (Some 2) True)]"

definition months :: "(string \<times> int) list" where
  "months =
     [(''jan'', 0), (''feb'', 1), (''mar'', 2), (''apr'', 3), (''may'', 4), (''jun'', 5),
      (''jul'', 6), (''aug'', 7), (''sep'', 8), (''oct'', 9), (''nov'', 10), (''dec'', 11)]"

text \<open>\<^verbatim>\<open>a || b\<close> on captures: \<open>a\<close> unless it is undefined or empty.\<close>

definition orElse :: "string option \<Rightarrow> string option \<Rightarrow> string option" where
  "orElse a b = (case a of None \<Rightarrow> b | Some s \<Rightarrow> if s = [] then b else Some s)"

text \<open>
  Each attempt returns the date it built, or \<open>None\<close> where the source falls through to the
  next attempt (no match, an unknown month, or a date whose time value is NaN).
\<close>

definition tryDMY :: "string \<Rightarrow> int option" where
  "tryDMY s =
     (case rsearch False dmyRx s of
        None \<Rightarrow> None
      | Some parts \<Rightarrow>
          (let day = parseIntArg (cap parts 1);
               month = map_option (\<lambda>m. m - 1) (parseIntArg (cap parts 2));
               year = map_option (\<lambda>y. if y < 100 then y + 2000 else y)
                        (parseIntArg (cap parts 3))
           in DateUTC year month day))"

definition textDate :: "caps \<Rightarrow> string \<Rightarrow> int option" where
  "textDate parts monthStr =
     (case map_of months monthStr of
        None \<Rightarrow> None
      | Some month \<Rightarrow>
          (let day = parseIntArg (orElse (cap parts 1) (cap parts 3));
               year = parseIntArg (cap parts 4)
           in DateUTC year (Some month) day))"

text \<open>
  The reducer-based variant reads the month with optional chaining
  (\<^verbatim>\<open>parts[2]?.substring(0, 3)?.toLowerCase()\<close>): an undefined group gives an undefined
  key, which the month table does not have.
\<close>

definition tryText :: "string \<Rightarrow> int option" where
  "tryText s =
     (case rsearch True textRx (replaceCommaSpace s) of
        None \<Rightarrow> None
      | Some parts \<Rightarrow>
          (case cap parts 2 of
             None \<Rightarrow> None
           | Some g \<Rightarrow> textDate parts (toLowerCase (take 3 g))))"

definition tryYMD :: "string \<Rightarrow> int option" where
  "tryYMD s =
     (case rsearch False ymdRx s of
        None \<Rightarrow> None
      | Some parts \<Rightarrow>
          (let year = parseIntArg (cap parts 1);
               month = map_option (\<lambda>m. m - 1) (parseIntArg (cap parts 2));
               day = parseIntArg (cap parts 3)
           in DateUTC year month day))"

text \<open>
  parseDate of the reducer-based variant: numeric day-month-year, then the textual month,
  then numeric year-month-day, then the host's parser. The argument is \<open>None\<close> for
  \<^verbatim>\<open>null\<close> or \<^verbatim>\<open>undefined\<close>; \<^verbatim>\<open>!dateString\<close> holds for these and for the empty string.
\<close>

definition parseDate :: "(string \<Rightarrow> int option) \<Rightarrow> string option \<Rightarrow> int option" where
  "parseDate host dateString =
     (case dateString of
        None \<Rightarrow> None
      | Some s \<Rightarrow>
          if s = [] then None
          else (case tryDMY s of
                  Some t \<Rightarrow> Some t
                | None \<Rightarrow>
                    (case tryText s of
                       Some t \<Rightarrow> Some t
                     | None \<Rightarrow>
                         (case tryYMD s of
                            Some t \<Rightarrow> Some t
                          | None \<Rightarrow> newDate host s))))"

text \<open>
  An exception is the message of the thrown error; a computation that may throw returns
  \<open>Inl\<close> of it.
\<close>

type_synonym exn = string

text \<open>
  parseDate of App.jsx: no year-month-day attempt, and the month is read with
  \<^verbatim>\<open>parts[2].substring(0, 3)\<close>, which throws a TypeError when group 2 is undefined.
\<close>

definition tryText_App :: "string \<Rightarrow> exn + int option" where
  "tryText_App s =
     (case rsearch True textRx (replaceCommaSpace s) of
        None \<Rightarrow> Inr None
      | Some parts \<Rightarrow>
          (case cap parts 2 of
             None \<Rightarrow> Inl ''TypeError: parts[2] is undefined''
           | Some g \<Rightarrow> Inr (textDate parts (toLowerCase (take 3 g)))))"

definition parseDate_App :: "(string \<Rightarrow> int option) \<Rightarrow> string option \<Rightarrow> exn + int option" where
  "parseDate_App host dateString =
     (case dateString of
        None \<Rightarrow> Inr None
      | Some s \<Rightarrow>
          if s = [] then Inr None
          else (case tryDMY s of
                  Some t \<Rightarrow> Inr (Some t)
                | None \<Rightarrow>
                    (case tryText_App s of
                       Inl e \<Rightarrow> Inl e
                     | Inr (Some t) \<Rightarrow> Inr (Some t)
                     | Inr None \<Rightarrow> Inr (newDate host s))))"

text \<open>parseDate of the earliest variant: the numeric day-month-year attempt and the host's parser.\<close>

definition parseDate_basic :: "(string \<Rightarrow> int option) \<Rightarrow> string option \<Rightarrow> int option" where
  "parseDate_basic host dateString =
     (case dateString of
        None \<Rightarrow> None
      | Some s \<Rightarrow>
          if s = [] then None
          else (case tryDMY s of Some t \<Rightarrow> Some t | None \<Rightarrow> newDate host s))"

text \<open>A host whose parser recognizes nothing beyond the date-only form.\<close>

definition noHost :: "string \<Rightarrow> int option" where
  "noHost s = None"

section \<open>The collaborators of a crawl\<close>

text \<open>
  What the crawl takes from its surroundings, as the parameters of the model:
  \<^item> \<open>fetchHtml u\<close>: the outcome of \<^verbatim>\<open>await fetchHtml(u)\<close>, either \<open>Inl\<close> of the message
    of the error the promise is rejected with, or \<open>Inr\<close> of \<^verbatim>\<open>data.contents\<close> (\<open>None\<close>
    for \<^verbatim>\<open>null\<close>);
  \<^item> \<open>anchors html\<close>: the elements that
    \<^verbatim>\<open>querySelectorAll('article a, .post a, .job-listing a, h2 a, h3 a')\<close> selects in the
    parsed document, in document order, each as its \<^verbatim>\<open>href\<close> property and its
    \<^verbatim>\<open>innerText\<close>;
  \<^item> \<open>queryText html sel\<close>: the \<^verbatim>\<open>innerText\<close> of \<^verbatim>\<open>querySelector(sel)\<close>, \<open>None\<close> when
    nothing matches;
  \<^item> \<open>bodyText html\<close>: \<^verbatim>\<open>body.innerText\<close> of the parsed document;
  \<^item> \<open>resolveUrl href base\<close>: \<^verbatim>\<open>new URL(href, base).href\<close>, \<open>None\<close> when the
    constructor throws;
  \<^item> \<open>urlOrigin u\<close>: \<^verbatim>\<open>new URL(u).origin\<close>, or \<open>Inl\<close> of the message of the TypeError;
  \<^item> \<open>dateOfString\<close>: the host's date parser (see \<open>newDate\<close>);
  \<^item> \<open>clock\<close>: the time value of \<^verbatim>\<open>new Date()\<close> when the extraction starts;
  \<^item> \<open>localMidnight t\<close>: the time value after \<^verbatim>\<open>setHours(0, 0, 0, 0)\<close> on a Date of
    time value \<open>t\<close>, the start of that day in the host's time zone;
  \<^item> \<open>sixMonthsFromNow\<close>: the time value of \<^verbatim>\<open>new Date()\<close> after
    \<^verbatim>\<open>setMonth(getMonth() + 6)\<close>.
\<close>

record env =
  fetchHtml :: "string \<Rightarrow> exn + string option"
  anchors :: "string \<Rightarrow> (string \<times> string) list"
  queryText :: "string \<Rightarrow> string \<Rightarrow> string option"
  bodyText :: "string \<Rightarrow> string"
  resolveUrl :: "string \<Rightarrow> string \<Rightarrow> string option"
  urlOrigin :: "string \<Rightarrow> exn + string"
  dateOfString :: "string \<Rightarrow> int option"
  clock :: int
  localMidnight :: "int \<Rightarrow> int"
  sixMonthsFromNow :: int

text \<open>\<^verbatim>\<open>const today = new Date(); today.setHours(0, 0, 0, 0);\<close>\<close>

definition today :: "env \<Rightarrow> int" where
  "today e = localMidnight e (clock e)"

section \<open>Link discovery\<close>

definition jobUrlKeywords :: "string list" where
  "jobUrlKeywords = [''job'', ''career'', ''vacancy'', ''hiring'', ''position'']"

text \<open>
  \<^verbatim>\<open>jobUrlKeywords.some(keyword => linkUrl.includes(keyword) || linkText.includes(keyword))\<close>
\<close>

definition mentionsJob :: "string \<Rightarrow> string \<Rightarrow> bool" where
  "mentionsJob linkUrl linkText =
     list_ex (\<lambda>keyword. includes_str linkUrl keyword \<or> includes_str linkText keyword)
       jobUrlKeywords"

text \<open>\<^verbatim>\<open>postLinks.add(href)\<close> on a Set kept in insertion order.\<close>

definition setAdd :: "string list \<Rightarrow> string \<Rightarrow> string list" where
  "setAdd xs x = (if x \<in> set xs then xs else xs @ [x])"

text \<open>
  The \<^verbatim>\<open>href\<close> after the optional resolution against the seed URL; \<open>None\<close> is the
  \<^verbatim>\<open>return\<close> of the \<^verbatim>\<open>catch\<close>, which skips the anchor.
\<close>

definition normalizeHref :: "env \<Rightarrow> string \<Rightarrow> string \<Rightarrow> string option" where
  "normalizeHref e seed href =
     (if href \<noteq> [] \<and> \<not> startsWith href ''http'' then resolveUrl e href seed else Some href)"

text \<open>
  One call of the \<^verbatim>\<open>forEach\<close> callback of App.jsx and of the reducer-based variant, on
  the links collected so far. \<^verbatim>\<open>new URL(correctedUrl)\<close> is evaluated for every anchor with
  a non-empty href, outside the inner \<^verbatim>\<open>try\<close>: its TypeError leaves the loop.
\<close>

definition considerLink :: "env \<Rightarrow> string \<Rightarrow> string list \<Rightarrow> string \<times> string \<Rightarrow> exn + string list" where
  "considerLink e correctedUrl postLinks a =
     (case normalizeHref e correctedUrl (fst a) of
        None \<Rightarrow> Inr postLinks
      | Some href \<Rightarrow>
          if href = [] then Inr postLinks
          else (case urlOrigin e correctedUrl of
                  Inl err \<Rightarrow> Inl err
                | Inr origin \<Rightarrow>
                    if startsWith href origin then
                      (let linkText = toLowerCase (snd a); linkUrl = toLowerCase href in
                       if mentionsJob linkUrl linkText then Inr (setAdd postLinks href)
                       else Inr postLinks)
                    else Inr postLinks))"

text \<open>The callback of the earliest variant: the same, without the keyword test.\<close>

definition considerLink_basic :: "env \<Rightarrow> string \<Rightarrow> string list \<Rightarrow> string \<times> string \<Rightarrow> exn + string list" where
  "considerLink_basic e url0 postLinks a =
     (case normalizeHref e url0 (fst a) of
        None \<Rightarrow> Inr postLinks
      | Some href \<Rightarrow>
          if href = [] then Inr postLinks
          else (case urlOrigin e url0 of
                  Inl err \<Rightarrow> Inl err
                | Inr origin \<Rightarrow>
                    if startsWith href origin then Inr (setAdd postLinks href)
                    else Inr postLinks))"

text \<open>A \<^verbatim>\<open>forEach\<close> whose callback may throw: the first exception ends the loop.\<close>

fun forEachLink :: "(string list \<Rightarrow> string \<times> string \<Rightarrow> exn + string list) \<Rightarrow>
    (string \<times> string) list \<Rightarrow> string list \<Rightarrow> exn + string list" where
  "forEachLink f [] postLinks = Inr postLinks"
| "forEachLink f (a # as) postLinks =
     (case f postLinks a of Inl err \<Rightarrow> Inl err | Inr postLinks' \<Rightarrow> forEachLink f as postLinks')"

text \<open>\<^verbatim>\<open>uniqueLinks\<close>, from the seed page's HTML and the seed URL.\<close>

definition discoverLinks :: "env \<Rightarrow> string \<Rightarrow> string \<Rightarrow> exn + string list" where
  "discoverLinks e mainHtml correctedUrl =
     forEachLink (considerLink e correctedUrl) (anchors e mainHtml) []"

definition discoverLinks_basic :: "env \<Rightarrow> string \<Rightarrow> string \<Rightarrow> exn + string list" where
  "discoverLinks_basic e mainHtml url0 =
     forEachLink (considerLink_basic e url0) (anchors e mainHtml) []"

section \<open>Title and deadline extraction\<close>

definition structuralSelectors :: "string list" where
  "structuralSelectors =
     [''h1.entry-title'', ''h2.entry-title'', ''h1.post-title'', ''h2.post-title'',
      ''article h1'', ''main h1'', ''.entry-content h1'', ''article h2'', ''main h2'',
      ''.entry-content h2'', ''.entry-title'', ''.post-title'']"

text \<open>
  The loop of findTitle over the selectors; \<open>long\<close> is the test on the trimmed text, the
  one difference between the two files: more than ten characters in the reducer-based
  variant, a space somewhere in App.jsx.
\<close>

fun firstTitle :: "(string \<Rightarrow> bool) \<Rightarrow> env \<Rightarrow> string \<Rightarrow> string list \<Rightarrow> string option" where
  "firstTitle long e doc [] = None"
| "firstTitle long e doc (selector # rest) =
     (case queryText e doc selector of
        None \<Rightarrow> firstTitle long e doc rest
      | Some text \<Rightarrow>
          (let titleText = trim text in
           if long titleText then Some titleText else firstTitle long e doc rest))"

definition findTitleWith :: "(string \<Rightarrow> bool) \<Rightarrow> env \<Rightarrow> string \<Rightarrow> string" where
  "findTitleWith long e doc =
     (case firstTitle long e doc structuralSelectors of
        Some t \<Rightarrow> t
      | None \<Rightarrow>
          (case queryText e doc ''h1'' of
             Some text \<Rightarrow> trim text
           | None \<Rightarrow> ''Post Title Not Found''))"

definition findTitle :: "env \<Rightarrow> string \<Rightarrow> string" where
  "findTitle = findTitleWith (\<lambda>t. 10 < length t)"

definition findTitle_App :: "env \<Rightarrow> string \<Rightarrow> string" where
  "findTitle_App = findTitleWith (\<lambda>t. includes_str t '' '')"

text \<open>
  \<^verbatim>\<open>/(?:last date|closing date|deadline|apply by|applications close|submit by)[\s:.-]*([\w\s,./-]+\d{1,4})/i\<close>
\<close>

definition deadlineRx :: rx where
  "deadlineRx =
     seqs [alts [lit ''last date'', lit ''closing date'', lit ''deadline'', lit ''apply by'',
                 lit ''applications close'', lit ''submit by''],
           Repeat [Space, OneOf '':.-''] 0 None True,
           Grp 1 (seqs [Repeat [WordCh, Space, OneOf '',./-''] 1 None True,
                        Repeat [Digit] 1 (Some 4) True])]"

definition jobKeywords :: "string list" where
  "jobKeywords =
     [''qualification'', ''responsibilit'', ''experience'', ''salary'', ''location'',
      ''apply now'', ''job type'']"

text \<open>The relevance score: how many of the keywords occur in the lower-cased body text.\<close>

definition score :: "string \<Rightarrow> nat" where
  "score body = length (filter (\<lambda>keyword. includes_str (toLowerCase body) keyword) jobKeywords)"

text \<open>
  The deadline of one fetched document, as the callback of \<^verbatim>\<open>validResults.forEach\<close>
  computes it before it looks at the jobs found so far: \<open>Inr None\<close> when the document
  yields no job. \<open>parse\<close> is the file's parseDate, which in App.jsx may throw.
\<close>

definition extractDeadline :: "(string option \<Rightarrow> exn + int option) \<Rightarrow> int \<Rightarrow> string \<Rightarrow> exn + int option" where
  "extractDeadline parse today0 body =
     (case rsearch True deadlineRx body of
        None \<Rightarrow> Inr None
      | Some m \<Rightarrow>
          (case cap m 1 of
             None \<Rightarrow> Inr None
           | Some payload \<Rightarrow>
               if payload = [] then Inr None
               else if 2 \<le> score body then
                 (case parse (Some (trim payload)) of
                    Inl err \<Rightarrow> Inl err
                  | Inr None \<Rightarrow> Inr None
                  | Inr (Some lastDate0) \<Rightarrow>
                      if today0 \<le> lastDate0 then Inr (Some lastDate0) else Inr None)
               else Inr None))"

text \<open>\<^verbatim>\<open>if (!foundJobs.some(job => job.link === postUrl)) foundJobs.push(...)\<close>\<close>

definition pushJob :: "job list \<Rightarrow> job \<Rightarrow> job list" where
  "pushJob found j =
     (if list_ex (\<lambda>k. link k = link j) found then found else found @ [j])"

fun collectJobs :: "(env \<Rightarrow> string \<Rightarrow> string) \<Rightarrow> (string option \<Rightarrow> exn + int option) \<Rightarrow> env \<Rightarrow>
    (string \<times> string) list \<Rightarrow> job list \<Rightarrow> exn + job list" where
  "collectJobs titleOf parse e [] found = Inr found"
| "collectJobs titleOf parse e (r # rs) found =
     (case extractDeadline parse (today e) (bodyText e (snd r)) of
        Inl err \<Rightarrow> Inl err
      | Inr None \<Rightarrow> collectJobs titleOf parse e rs found
      | Inr (Some d) \<Rightarrow>
          collectJobs titleOf parse e rs
            (pushJob found \<lparr>title = titleOf e (snd r), link = fst r, lastDate = d\<rparr>))"

section \<open>The crawl of App.jsx and of the reducer-based variant\<close>

definition correctUrl :: "string \<Rightarrow> string" where
  "correctUrl u =
     (let correctedUrl = trim u in
      if \<not> startsWith correctedUrl ''http://'' \<and> \<not> startsWith correctedUrl ''https://''
      then ''https://'' @ correctedUrl else correctedUrl)"

text \<open>
  Step 1: the seed page and its candidate links. \<open>Inl\<close> is the message of the error thrown
  inside the \<^verbatim>\<open>try\<close> block.
\<close>

definition findLinks :: "env \<Rightarrow> string \<Rightarrow> exn + string list" where
  "findLinks e correctedUrl =
     (case fetchHtml e correctedUrl of
        Inl err \<Rightarrow> Inl err
      | Inr None \<Rightarrow> Inl ''Could not fetch the main page content.''
      | Inr (Some mainHtml) \<Rightarrow>
          if mainHtml = [] then Inl ''Could not fetch the main page content.''
          else (case discoverLinks e mainHtml correctedUrl of
                  Inl err \<Rightarrow> Inl err
                | Inr uniqueLinks \<Rightarrow>
                    if uniqueLinks = []
                    then Inl ''Could not find any potential job post links. Try a more specific URL.''
                    else Inr uniqueLinks))"

text \<open>
  Step 2: every link is fetched; a rejected fetch becomes \<^verbatim>\<open>{ url: link, html: null }\<close>.
  \<^verbatim>\<open>Promise.all\<close> keeps the order of the links.
\<close>

definition fetchAll :: "env \<Rightarrow> string list \<Rightarrow> (string \<times> string option) list" where
  "fetchAll e links =
     map (\<lambda>link. (link, case fetchHtml e link of Inl err \<Rightarrow> None | Inr html \<Rightarrow> html)) links"

definition validResults :: "(string \<times> string option) list \<Rightarrow> (string \<times> string) list" where
  "validResults results = [(u, html). (u, Some html) \<leftarrow> results]"

text \<open>Step 3: \<^verbatim>\<open>foundJobs\<close> of the reducer-based variant (before it is sorted), and of App.jsx.\<close>

definition foundJobs :: "env \<Rightarrow> string list \<Rightarrow> exn + job list" where
  "foundJobs e uniqueLinks =
     collectJobs findTitle (\<lambda>s. Inr (parseDate (dateOfString e) s)) e
       (validResults (fetchAll e uniqueLinks)) []"

definition foundJobs_App :: "env \<Rightarrow> string list \<Rightarrow> exn + job list" where
  "foundJobs_App e uniqueLinks =
     collectJobs findTitle_App (parseDate_App (dateOfString e)) e
       (validResults (fetchAll e uniqueLinks)) []"

definition crawl_App :: "env \<Rightarrow> string \<Rightarrow> exn + job list" where
  "crawl_App e url0 =
     (case findLinks e (correctUrl url0) of
        Inl err \<Rightarrow> Inl err
      | Inr uniqueLinks \<Rightarrow> foundJobs_App e uniqueLinks)"

fun showNat :: "nat \<Rightarrow> string" where
  "showNat n = (if n < 10 then [digitChar n] else showNat (n div 10) @ [digitChar n])"

text \<open>
  The actions handleFetchJobs dispatches after START_SCAN, in order; the message of a caught
  error is replaced by a fixed text when it is empty.
\<close>

definition errorAction :: "exn \<Rightarrow> action" where
  "errorAction msg =
     SET_ERROR (if msg = []
                then ''An unexpected error occurred. Please check the URL and try again.''
                else msg)"

definition scanActions :: "env \<Rightarrow> string \<Rightarrow> action list" where
  "scanActions e url0 =
     (case findLinks e (correctUrl url0) of
        Inl err \<Rightarrow> [errorAction err]
      | Inr uniqueLinks \<Rightarrow>
          [UPDATE_STATUS (''Step 2/3: Analyzing '' @ showNat (length uniqueLinks)
                          @ '' found links...''),
           UPDATE_STATUS ''Step 3/3: Verifying posts and extracting deadlines...'']
          @ (case foundJobs e uniqueLinks of
               Inl err \<Rightarrow> [errorAction err]
             | Inr js \<Rightarrow> [SET_JOBS (sort_key lastDate js)]))"

definition handleFetchJobs :: "env \<Rightarrow> crawler_state \<Rightarrow> crawler_state" where
  "handleFetchJobs e state =
     (if url state = [] then crawlerReducer state (SET_ERROR ''Please enter a website URL.'')
      else foldl crawlerReducer state (START_SCAN # scanActions e (url state)))"

section \<open>The deadline filters\<close>

text \<open>
  \<^verbatim>\<open>finalJobs\<close> of App.jsx: the jobs on the selected day, else the jobs on the nearest
  earlier deadline. \<^verbatim>\<open>candidateJobs.sort(...)\<close> sorts in place (a stable sort, descending
  by deadline), so the last \<^verbatim>\<open>filter\<close> runs over the sorted array.
\<close>

definition finalJobs :: "env \<Rightarrow> job list \<Rightarrow> string \<Rightarrow> job list" where
  "finalJobs e found filterDate0 =
     (if filterDate0 = [] then found
      else
        (let exactMatchJobs = filter (\<lambda>j. isoDatePart (lastDate j) = filterDate0) found in
         if exactMatchJobs \<noteq> [] then exactMatchJobs
         else (case newDate (dateOfString e) filterDate0 of
                 None \<Rightarrow> []
               | Some selectedDate \<Rightarrow>
                   (let candidateJobs = filter (\<lambda>j. lastDate j \<le> selectedDate) found in
                    if candidateJobs \<noteq> [] then
                      (let sorted = sort_key (\<lambda>j. - lastDate j) candidateJobs;
                           nearestDate = lastDate (hd sorted)
                       in filter (\<lambda>j. lastDate j = nearestDate) sorted)
                    else []))))"

text \<open>
  \<^verbatim>\<open>filteredJobs\<close> of the reducer-based variant: with a filter date, every job whose
  deadline is not after it (none when the date is invalid, since a comparison with NaN is
  false); else the six-month horizon when it is switched on.
\<close>

definition filteredJobs :: "env \<Rightarrow> crawler_state \<Rightarrow> job list" where
  "filteredJobs e state =
     filter (\<lambda>j. if filterDate state \<noteq> [] then
                    (case newDate (dateOfString e) (filterDate state) of
                       None \<Rightarrow> False
                     | Some t \<Rightarrow> lastDate j \<le> t)
                  else if showNextSixMonths state then lastDate j \<le> sixMonthsFromNow e
                  else True) (jobs state)"

section \<open>The earliest variant\<close>

record app_state =
  appUrl :: string
  appJobs :: "job list"
  appIsLoading :: bool
  appError :: string
  appCopiedJob :: "string option"
  appStatus :: string
  appPage :: int

text \<open>The initial values of the \<^verbatim>\<open>useState\<close> hooks.\<close>

definition initialApp :: app_state where
  "initialApp =
     \<lparr>appUrl = [], appJobs = [], appIsLoading = False, appError = [], appCopiedJob = None,
      appStatus = [], appPage = 1\<rparr>"

text \<open>
  \<^verbatim>\<open>/(?:last\s+date|closing\s+date|deadline)[\s\S]*?(\d{1,2}[./-]\d{1,2}[./-]\d{2,4})/i\<close>
\<close>

definition deadlineRx_basic :: rx where
  "deadlineRx_basic =
     seqs [alts [seqs [lit ''last'', Repeat [Space] 1 None True, lit ''date''],
                 seqs [lit ''closing'', Repeat [Space] 1 None True, lit ''date''],
                 lit ''deadline''],
           Repeat [Space, NonSpace] 0 None False,
           Grp 1 (seqs [Repeat [Digit] 1 (Some 2) True, Cls [OneOf ''./-''],
                        Repeat [Digit] 1 (Some 2) True, Cls [OneOf ''./-''],
                        Repeat [Digit] 2 (Some 4) True])]"

definition extractDeadline_basic :: "(string \<Rightarrow> int option) \<Rightarrow> int \<Rightarrow> string \<Rightarrow> int option" where
  "extractDeadline_basic host today0 body =
     (case rsearch True deadlineRx_basic body of
        None \<Rightarrow> None
      | Some m \<Rightarrow>
          (case cap m 1 of
             None \<Rightarrow> None
           | Some payload \<Rightarrow>
               if payload = [] then None
               else (case parseDate_basic host (Some payload) of
                       None \<Rightarrow> None
                     | Some lastDate0 \<Rightarrow> if today0 \<le> lastDate0 then Some lastDate0 else None)))"

definition title_basic :: "env \<Rightarrow> string \<Rightarrow> string" where
  "title_basic e doc =
     (case queryText e doc ''h1, .entry-title'' of
        Some text \<Rightarrow> trim text
      | None \<Rightarrow> ''Title not found'')"

text \<open>
  \<^verbatim>\<open>validHtmls.forEach((postHtml, index) => { const postUrl = uniqueLinks[index]; ... })\<close>:
  the position of a page among the pages that were fetched selects its URL among all the
  links. The argument pairs each fetched page with that URL.
\<close>

fun collectJobs_basic :: "env \<Rightarrow> (string \<times> string) list \<Rightarrow> job list \<Rightarrow> job list" where
  "collectJobs_basic e [] found = found"
| "collectJobs_basic e (r # rs) found =
     (case extractDeadline_basic (dateOfString e) (today e) (bodyText e (snd r)) of
        None \<Rightarrow> collectJobs_basic e rs found
      | Some d \<Rightarrow>
          collectJobs_basic e rs
            (pushJob found \<lparr>title = title_basic e (snd r), link = fst r, lastDate = d\<rparr>))"

definition validHtmls :: "env \<Rightarrow> string list \<Rightarrow> string list" where
  "validHtmls e uniqueLinks =
     [html. Some html \<leftarrow>
        map (\<lambda>postUrl. case fetchHtml e postUrl of Inl err \<Rightarrow> None | Inr html \<Rightarrow> html)
          uniqueLinks]"

definition foundJobs_basic :: "env \<Rightarrow> string list \<Rightarrow> job list" where
  "foundJobs_basic e uniqueLinks =
     collectJobs_basic e (zip uniqueLinks (validHtmls e uniqueLinks)) []"

definition crawl_basic :: "env \<Rightarrow> string \<Rightarrow> exn + job list" where
  "crawl_basic e url0 =
     (case fetchHtml e url0 of
        Inl err \<Rightarrow> Inl err
      | Inr None \<Rightarrow> Inl ''Could not fetch the main page content.''
      | Inr (Some mainHtml) \<Rightarrow>
          if mainHtml = [] then Inl ''Could not fetch the main page content.''
          else (case discoverLinks_basic e mainHtml url0 of
                  Inl err \<Rightarrow> Inl err
                | Inr uniqueLinks \<Rightarrow>
                    if uniqueLinks = [] then Inl ''Could not find any potential job post links.''
                    else Inr (foundJobs_basic e uniqueLinks)))"

text \<open>
  handleFetchJobs of the earliest variant, as the state after all its setters: the
  \<^verbatim>\<open>finally\<close> block ends every run that passed the URL check.
\<close>

definition handleFetchJobs_basic :: "env \<Rightarrow> app_state \<Rightarrow> app_state" where
  "handleFetchJobs_basic e st =
     (if appUrl st = [] then st\<lparr>appError := ''Please enter a website URL.''\<rparr>
      else
        (let st1 = st\<lparr>appIsLoading := True, appError := [], appJobs := [],
                      appCopiedJob := None, appPage := 1\<rparr>;
             st2 = (case crawl_basic e (appUrl st) of
                      Inl msg \<Rightarrow> st1\<lparr>appError := ''An error occurred: '' @ msg\<rparr>
                    | Inr found \<Rightarrow>
                        if found = []
                        then st1\<lparr>appError := ''Scan complete. No jobs with future deadlines were found.''\<rparr>
                        else st1\<lparr>appJobs := sort_key lastDate found, appPage := 1\<rparr>)
         in st2\<lparr>appIsLoading := False, appStatus := []\<rparr>))"

section \<open>Example jobs and example sites\<close>

text \<open>
  Three jobs with the deadlines 10, 15 and 20 January 2025.
\<close>

definition jobsJan :: "job list" where
  "jobsJan =
     [\<lparr>title = ''Clerk'', link = ''https://example.com/jobs/clerk'',
       lastDate = utcMidnight 2025 1 10\<rparr>,
      \<lparr>title = ''Driver'', link = ''https://example.com/jobs/driver'',
       lastDate = utcMidnight 2025 1 15\<rparr>,
      \<lparr>title = ''Nurse'', link = ''https://example.com/jobs/nurse'',
       lastDate = utcMidnight 2025 1 20\<rparr>]"

text \<open>
  Two jobs whose deadlines fall on the same UTC day, 14 January 2025: the first at 18:30
  UTC, which is the start of 15 January in the time zone UTC+05:30, the second at
  midnight UTC.
\<close>

definition jobsEvening :: "job list" where
  "jobsEvening =
     [\<lparr>title = ''Clerk'', link = ''https://example.com/jobs/clerk'',
       lastDate = 1736879400000\<rparr>,
      \<lparr>title = ''Driver'', link = ''https://example.com/jobs/driver'',
       lastDate = utcMidnight 2025 1 14\<rparr>]"

definition lookupOr :: "'b \<Rightarrow> (string \<times> 'b) list \<Rightarrow> string \<Rightarrow> 'b" where
  "lookupOr d table k = (case map_of table k of Some v \<Rightarrow> v | None \<Rightarrow> d)"

text \<open>
  A site given by tables: what each URL fetches to, the selected anchors of each page, the
  text of the first \<^verbatim>\<open>h1\<close> of each page and its body text. Every URL outside the table fails
  to fetch; relative links do not resolve; the only URL with an origin is the seed
  \<^verbatim>\<open>https://example.com\<close>. The host is in the UTC time zone, its clock stands at
  2025-01-15T04:30:00Z, and its date parser knows the date-only form only.
\<close>

definition siteOf :: "(string \<times> (exn + string option)) list \<Rightarrow> (string \<times> (string \<times> string) list) list \<Rightarrow>
    (string \<times> string) list \<Rightarrow> (string \<times> string) list \<Rightarrow> env" where
  "siteOf pages links headings bodies =
     \<lparr>fetchHtml = lookupOr (Inl ''Failed to fetch'') pages,
      anchors = lookupOr [] links,
      queryText = (\<lambda>html selector.
         if selector = ''h1'' \<or> selector = ''h1, .entry-title'' then map_of headings html
         else None),
      bodyText = lookupOr [] bodies,
      resolveUrl = (\<lambda>href base. None),
      urlOrigin = lookupOr (Inl ''Invalid URL'') [(''https://example.com'', Inr ''https://example.com'')],
      dateOfString = noHost,
      clock = 1736915400000,
      localMidnight = (\<lambda>t. t div msPerDay * msPerDay),
      sixMonthsFromNow = 1752553800000\<rparr>"

text \<open>
  The seed page links to three pages of its own site, two of them job-like (one by its
  URL, one by its anchor text), and to one page of another site. The first job-like page
  fails to fetch; the second is a job posting; the third page mentions a deadline but is
  not a job posting.
\<close>

definition seedAnchors :: "(string \<times> string) list" where
  "seedAnchors =
     [(''https://example.com/jobs/clerk'', ''Clerk''),
      (''https://example.com/news/42'', ''We are hiring engineers''),
      (''https://example.com/about'', ''About us''),
      (''https://other.example.org/jobs/7'', ''Jobs elsewhere'')]"

definition site :: env where
  "site =
     siteOf
       [(''https://example.com'', Inr (Some ''<seed>'')),
        (''https://example.com/jobs/clerk'', Inl ''Failed to fetch https://example.com/jobs/clerk''),
        (''https://example.com/news/42'', Inr (Some ''<engineer>'')),
        (''https://example.com/about'', Inr (Some ''<about>''))]
       [(''<seed>'', seedAnchors)]
       [(''<engineer>'', ''Engineers wanted at Example''), (''<about>'', ''About Example'')]
       [(''<engineer>'', ''Qualification: degree. Salary: 100. Last date: 15/01/2030''),
        (''<about>'', ''Office move deadline: 20/02/2030'')]"

text \<open>The same site when every page fetches and none of them states a deadline.\<close>

definition quietSite :: env where
  "quietSite =
     siteOf
       [(''https://example.com'', Inr (Some ''<seed>'')),
        (''https://example.com/jobs/clerk'', Inr (Some ''<clerk>'')),
        (''https://example.com/news/42'', Inr (Some ''<engineer>'')),
        (''https://example.com/about'', Inr (Some ''<about>''))]
       [(''<seed>'', seedAnchors)]
       [(''<clerk>'', ''Clerk''), (''<engineer>'', ''Engineers wanted at Example''),
        (''<about>'', ''About Example'')]
       [(''<clerk>'', ''Qualification: degree. Salary: 100.''),
        (''<engineer>'', ''Qualification: degree. Salary: 100.''),
        (''<about>'', ''About us'')]"

text \<open>
  A seed page whose one link is on another host, the seed's host name followed by more
  labels; the URL string still starts with the seed's origin.
\<close>

definition prefixSite :: env where
  "prefixSite =
     (siteOf
        [(''https://example.com'', Inr (Some ''<seed>''))]
        [(''<seed>'', [(''https://example.com.evil.net/jobs/1'', ''Apply'')])]
        [] [])
     \<lparr>urlOrigin :=
        lookupOr (Inl ''Invalid URL'')
          [(''https://example.com'', Inr ''https://example.com''),
           (''https://example.com.evil.net/jobs/1'', Inr ''https://example.com.evil.net'')]\<rparr>"

text \<open>
  A host in the time zone UTC+05:30: the start of its day is 18:30 UTC of the previous
  day, and its date parser reads \<^verbatim>\<open>January 15, 2025\<close> as midnight local time, which is
  2025-01-14T18:30:00Z. The one job posting states its deadline in that form.
\<close>

definition istMidnight :: "int \<Rightarrow> int" where
  "istMidnight t = (t + 19800000) div msPerDay * msPerDay - 19800000"

definition istParser :: "string \<Rightarrow> int option" where
  "istParser s = (if s = ''January 15, 2025'' then Some 1736879400000 else None)"

definition istSite :: env where
  "istSite =
     (siteOf
        [(''https://example.com'', Inr (Some ''<seed>'')),
         (''https://example.com/jobs/clerk'', Inr (Some ''<clerk>''))]
        [(''<seed>'', [(''https://example.com/jobs/clerk'', ''Clerk'')])]
        [(''<clerk>'', ''Clerk wanted at Example'')]
        [(''<clerk>'', ''Qualification: degree. Salary: 100. Last date: January 15, 2025'')])
     \<lparr>dateOfString := istParser, localMidnight := istMidnight\<rparr>"

section \<open>Calendar arithmetic\<close>

lemma div_bounds:
  fixes x n :: int
  assumes "0 < n"
  shows "n * (x div n) \<le> x" and "x < n * (x div n) + n"
proof -
  have e: "n * (x div n) + x mod n = x" by simp
  have "0 \<le> x mod n" "x mod n < n" using assms by simp_all
  with e show "n * (x div n) \<le> x" and "x < n * (x div n) + n" by linarith+
qed

lemma div_step:
  fixes x n :: int
  assumes "0 < n"
  shows "(x + 1) div n = x div n + (if (x + 1) mod n = 0 then 1 else 0)"
proof -
  define q where "q = x div n"
  define r where "r = x mod n"
  have x: "x = n * q + r" unfolding q_def r_def by simp
  have r: "0 \<le> r" "r < n" unfolding r_def using assms by simp_all
  show ?thesis
  proof (cases "r + 1 < n")
    case True
    have e: "x + 1 = n * q + (r + 1)" using x by simp
    have "(x + 1) div n = q"
      by (rule int_div_pos_eq[OF e]) (use r True in simp_all)
    moreover have "(x + 1) mod n = r + 1"
      by (rule int_mod_pos_eq[OF e]) (use r True in simp_all)
    ultimately show ?thesis using r q_def by simp
  next
    case False
    then have rn: "r + 1 = n" using r by simp
    have e: "x + 1 = n * (q + 1) + 0" using x rn by (simp add: algebra_simps)
    have "(x + 1) div n = q + 1"
      by (rule int_div_pos_eq[OF e]) (use assms in simp_all)
    moreover have "(x + 1) mod n = 0"
      by (rule int_mod_pos_eq[OF e]) (use assms in simp_all)
    ultimately show ?thesis using q_def by simp
  qed
qed

lemma mod_shift:
  fixes y :: int
  shows "(y - 1968) mod 4 = y mod 4" "(y - 1900) mod 100 = y mod 100"
    "(y - 1600) mod 400 = y mod 400"
proof -
  have "(y + 4 * (- 492)) mod 4 = y mod 4" by (rule mod_mult_self2)
  then show "(y - 1968) mod 4 = y mod 4" by simp
  have "(y + 100 * (- 19)) mod 100 = y mod 100" by (rule mod_mult_self2)
  then show "(y - 1900) mod 100 = y mod 100" by simp
  have "(y + 400 * (- 4)) mod 400 = y mod 400" by (rule mod_mult_self2)
  then show "(y - 1600) mod 400 = y mod 400" by simp
qed

lemma mod_400_100:
  fixes y :: int
  assumes "y mod 400 = 0"
  shows "y mod 100 = 0" and "y mod 4 = 0"
proof -
  from assms obtain k where k: "y = 400 * k" by auto
  have "y = 100 * (4 * k)" using k by simp
  then show "y mod 100 = 0" by (metis mod_mult_self1_is_0)
  have "y = 4 * (100 * k)" using k by simp
  then show "y mod 4 = 0" by (metis mod_mult_self1_is_0)
qed

lemma mod_100_4:
  fixes y :: int
  assumes "y mod 100 = 0"
  shows "y mod 4 = 0"
proof -
  from assms obtain k where k: "y = 100 * k" by auto
  have "y = 4 * (25 * k)" using k by simp
  then show "y mod 4 = 0" by (metis mod_mult_self1_is_0)
qed

lemma DayFromYear_step: "DayFromYear (y + 1) = DayFromYear y + DaysInYear y"
proof -
  have a: "(y + 1 - 1969) div 4 = (y - 1969) div 4 + (if y mod 4 = 0 then 1 else 0)"
    using div_step [of 4 "y - 1969"] mod_shift(1) [of y] by (simp add: algebra_simps)
  have b: "(y + 1 - 1901) div 100 = (y - 1901) div 100 + (if y mod 100 = 0 then 1 else 0)"
    using div_step [of 100 "y - 1901"] mod_shift(2) [of y] by (simp add: algebra_simps)
  have c: "(y + 1 - 1601) div 400 = (y - 1601) div 400 + (if y mod 400 = 0 then 1 else 0)"
    using div_step [of 400 "y - 1601"] mod_shift(3) [of y] by (simp add: algebra_simps)
  show ?thesis
    unfolding DayFromYear_def DaysInYear_def a b c
    using mod_400_100 [of y] mod_100_4 [of y] by auto
qed

lemma DayFromYear_bounds:
  "400 * DayFromYear y \<le> 146097 * (y - 1970) + 589"
  "146097 * (y - 1970) - 506 \<le> 400 * DayFromYear y"
proof -
  define a where "a = (y - 1969) div 4"
  define b where "b = (y - 1901) div 100"
  define c where "c = (y - 1601) div 400"
  have a: "4 * a \<le> y - 1969" "y - 1969 < 4 * a + 4"
    unfolding a_def using div_bounds [of 4 "y - 1969"] by simp_all
  have b: "100 * b \<le> y - 1901" "y - 1901 < 100 * b + 100"
    unfolding b_def using div_bounds [of 100 "y - 1901"] by simp_all
  have c: "400 * c \<le> y - 1601" "y - 1601 < 400 * c + 400"
    unfolding c_def using div_bounds [of 400 "y - 1601"] by simp_all
  have d: "DayFromYear y = 365 * y - 719050 + a - b + c"
    unfolding DayFromYear_def a_def b_def c_def by simp
  show "400 * DayFromYear y \<le> 146097 * (y - 1970) + 589"
    unfolding d using a b c by (simp add: algebra_simps)
  show "146097 * (y - 1970) - 506 \<le> 400 * DayFromYear y"
    unfolding d using a b c by (simp add: algebra_simps)
qed

lemma YearFromDay_lower: "DayFromYear (YearFromDay d) \<le> d"
proof -
  define y where "y = 1970 + (400 * d) div 146097"
  have a: "146097 * (y - 1970) \<le> 400 * d"
    unfolding y_def using div_bounds(1) [of 146097 "400 * d"] by simp
  have "400 * DayFromYear (y - 1) \<le> 400 * d"
    using DayFromYear_bounds(1) [of "y - 1"] a by (simp add: algebra_simps)
  then have "DayFromYear (y - 1) \<le> d" by simp
  then show ?thesis
    unfolding YearFromDay_def Let_def y_def [symmetric] by simp
qed

lemma YearFromDay_upper: "d < DayFromYear (YearFromDay d + 1)"
proof -
  define y where "y = 1970 + (400 * d) div 146097"
  have a: "400 * d < 146097 * (y - 1970) + 146097"
    unfolding y_def using div_bounds(2) [of 146097 "400 * d"] by simp
  have "400 * d < 400 * DayFromYear (y + 2)"
    using DayFromYear_bounds(2) [of "y + 2"] a by (simp add: algebra_simps)
  then have "d < DayFromYear (y + 2)" by simp
  then show ?thesis
    unfolding YearFromDay_def Let_def y_def [symmetric] by (simp add: add.commute)
qed

lemma DaysInYear_pos: "0 < DaysInYear y"
  by (simp add: DaysInYear_def)

lemma DayFromYear_mono_aux: "0 \<le> k \<Longrightarrow> DayFromYear y \<le> DayFromYear (y + k)"
proof (induction k rule: int_ge_induct)
  case base
  then show ?case by simp
next
  case (step i)
  have "DayFromYear (y + (i + 1)) = DayFromYear (y + i) + DaysInYear (y + i)"
    using DayFromYear_step [of "y + i"] by (simp add: add.assoc)
  with step DaysInYear_pos [of "y + i"] show ?case by linarith
qed

lemma DayFromYear_mono: "a \<le> b \<Longrightarrow> DayFromYear a \<le> DayFromYear b"
  using DayFromYear_mono_aux [of "b - a" a] by simp

lemma YearFromDay_unique:
  assumes "DayFromYear y \<le> d" and "d < DayFromYear (y + 1)"
  shows "YearFromDay d = y"
proof (rule ccontr)
  assume ne: "YearFromDay d \<noteq> y"
  show False
  proof (cases "YearFromDay d < y")
    case True
    then have "DayFromYear (YearFromDay d + 1) \<le> DayFromYear y"
      by (intro DayFromYear_mono) simp
    with YearFromDay_upper [of d] assms show False by linarith
  next
    case False
    with ne have "DayFromYear (y + 1) \<le> DayFromYear (YearFromDay d)"
      by (intro DayFromYear_mono) simp
    with YearFromDay_lower [of d] assms show False by linarith
  qed
qed

lemma month_cases:
  fixes m :: int
  assumes "1 \<le> m" "m \<le> 12"
  shows "m = 1 \<or> m = 2 \<or> m = 3 \<or> m = 4 \<or> m = 5 \<or> m = 6 \<or> m = 7 \<or> m = 8 \<or> m = 9
    \<or> m = 10 \<or> m = 11 \<or> m = 12"
  using assms by arith

lemma leapDays_cases: "leapDays y = 0 \<and> DaysInYear y = 365 \<or> leapDays y = 1 \<and> DaysInYear y = 366"
  by (simp add: leapDays_def DaysInYear_def)

lemma dayWithinYear_valid:
  assumes "validDate y m d"
  shows "0 \<le> monthStarts (leapDays y) ! nat (m - 1) + d - 1"
    and "monthStarts (leapDays y) ! nat (m - 1) + d - 1 < DaysInYear y"
  using assms month_cases [of m] leapDays_cases [of y]
  by (auto simp add: validDate_def daysInMonth_def monthStarts_def)

lemma MakeDay_valid:
  assumes "1 \<le> m" "m \<le> 12"
  shows "MakeDay y (m - 1) d = DayFromYear y + monthStarts (leapDays y) ! nat (m - 1) + d - 1"
proof -
  have "(m - 1) div 12 = 0" "(m - 1) mod 12 = m - 1" using assms by simp_all
  then show ?thesis by (simp add: MakeDay_def)
qed

lemma YearFromDay_MakeDay:
  assumes "validDate y m d"
  shows "YearFromDay (MakeDay y (m - 1) d) = y"
proof -
  have m: "1 \<le> m" "m \<le> 12" using assms by (simp_all add: validDate_def)
  show ?thesis
    unfolding MakeDay_valid [OF m]
    using dayWithinYear_valid [OF assms] DayFromYear_step [of y]
    by (intro YearFromDay_unique) linarith+
qed

lemma Month_Date_MakeDay:
  assumes "validDate y m d"
  shows "MonthFromDay (MakeDay y (m - 1) d) = m - 1"
    and "DateFromDay (MakeDay y (m - 1) d) = d"
proof -
  have m: "1 \<le> m" "m \<le> 12" using assms by (simp_all add: validDate_def)
  have w: "MakeDay y (m - 1) d - DayFromYear y = monthStarts (leapDays y) ! nat (m - 1) + d - 1"
    unfolding MakeDay_valid [OF m] by simp
  show a: "MonthFromDay (MakeDay y (m - 1) d) = m - 1"
    unfolding MonthFromDay_def YearFromDay_MakeDay [OF assms] Let_def w
    using assms month_cases [OF m] leapDays_cases [of y]
    by (auto simp add: validDate_def daysInMonth_def monthStarts_def)
  show "DateFromDay (MakeDay y (m - 1) d) = d"
    unfolding DateFromDay_def YearFromDay_MakeDay [OF assms] Let_def w a by simp
qed

lemma utcDate_utcMidnight:
  assumes "validDate y m d"
  shows "utcDate (utcMidnight y m d) = (y, m, d)"
  unfolding utcDate_def utcMidnight_def Let_def
  using YearFromDay_MakeDay [OF assms] Month_Date_MakeDay [OF assms]
  by (simp add: msPerDay_def)

lemma civil_of_day:
  "validDate (YearFromDay D) (MonthFromDay D + 1) (DateFromDay D)"
  "MakeDay (YearFromDay D) (MonthFromDay D) (DateFromDay D) = D"
proof -
  define y where "y = YearFromDay D"
  define w where "w = D - DayFromYear y"
  define l where "l = leapDays y"
  have w0: "0 \<le> w" unfolding w_def y_def using YearFromDay_lower [of D] by simp
  have "w < DaysInYear y"
    unfolding w_def y_def using YearFromDay_upper [of D] DayFromYear_step [of "YearFromDay D"]
    by simp
  then have w1: "w < 365 + l" and l: "l = 0 \<or> l = 1"
    unfolding l_def using leapDays_cases [of y] by auto
  have m: "MonthFromDay D =
      (if w < 31 then 0 else if w < 59 + l then 1 else if w < 90 + l then 2
       else if w < 120 + l then 3 else if w < 151 + l then 4 else if w < 181 + l then 5
       else if w < 212 + l then 6 else if w < 243 + l then 7 else if w < 273 + l then 8
       else if w < 304 + l then 9 else if w < 334 + l then 10 else 11)"
    unfolding MonthFromDay_def Let_def y_def w_def l_def ..
  have r: "0 \<le> MonthFromDay D" "MonthFromDay D \<le> 11" unfolding m by auto
  have d: "DateFromDay D = w - monthStarts l ! nat (MonthFromDay D) + 1"
    unfolding DateFromDay_def Let_def y_def w_def l_def ..
  have dm: "MonthFromDay D div 12 = 0" "MonthFromDay D mod 12 = MonthFromDay D"
    using r by simp_all
  show "MakeDay (YearFromDay D) (MonthFromDay D) (DateFromDay D) = D"
    unfolding MakeDay_def Let_def dm d y_def [symmetric]
    by (simp add: w_def l_def)
  show "validDate (YearFromDay D) (MonthFromDay D + 1) (DateFromDay D)"
    unfolding validDate_def daysInMonth_def d y_def [symmetric] l_def [symmetric] m
    using w0 w1 l by (auto simp: monthStarts_def)
qed

lemma utcDate_at:
  assumes "validDate y m d" and "t = utcMidnight y m d"
  shows "utcDate t = (y, m, d)"
  using utcDate_utcMidnight [OF assms(1)] assms(2) by simp

lemmas date_eval =
  utcMidnight_def MakeDay_def DayFromYear_def monthStarts_def leapDays_def DaysInYear_def
  msPerDay_def validDate_def daysInMonth_def

lemma utcDate_day: "utcDate t = utcDate (t div msPerDay * msPerDay)"
  by (simp add: utcDate_def msPerDay_def)

lemma evening_utcDate: "utcDate 1736879400000 = (2025, 1, 14)"
proof -
  have v: "validDate 2025 1 14" by (simp add: validDate_def daysInMonth_def)
  have "1736879400000 div msPerDay * msPerDay = utcMidnight 2025 1 14"
    by (simp add: date_eval)
  then show ?thesis
    using utcDate_day [of 1736879400000] utcDate_utcMidnight [OF v] by simp
qed

section \<open>Captures of a match\<close>

lemma rmatch_keeps:
  "st' \<in> set (rmatch ic r st) \<Longrightarrow> map_of (snd st) k \<noteq> None \<Longrightarrow> map_of (snd st') k \<noteq> None"
proof (induction ic r st arbitrary: st' rule: rmatch.induct)
  case (1 ic st)
  then show ?case by simp
next
  case (2 ic cs s c)
  then show ?case by (auto split: list.splits if_splits)
next
  case (3 ic cs lo hi greedy s c)
  then show ?case by (auto simp: Let_def split: if_splits)
next
  case (4 ic a b st)
  from 4(3) obtain st1 where a: "st1 \<in> set (rmatch ic a st)" and b: "st' \<in> set (rmatch ic b st1)"
    by auto
  have "map_of (snd st1) k \<noteq> None" using 4(1) [OF a 4(4)] .
  then show ?case using 4(2) [OF a b] by simp
next
  case (5 ic a b st)
  from 5(3) have "st' \<in> set (rmatch ic a st) \<or> st' \<in> set (rmatch ic b st)" by auto
  then show ?case using 5(1) [of st'] 5(2) [of st'] 5(4) by blast
next
  case (6 ic a st)
  from 6(2) have "st' \<in> set (rmatch ic a st) \<or> st' = st" by auto
  then show ?case using 6(1) [of st'] 6(3) by blast
next
  case (7 ic n a s c)
  from 7(2) obtain s1 c1 where m: "(s1, c1) \<in> set (rmatch ic a (s, c))"
    and e: "st' = (s1, (n, take (length s - length s1) s) # c1)" by auto
  have "map_of c1 k \<noteq> None" using 7(1) [OF m] 7(3) by simp
  then show ?case using e by simp
qed

lemma rmatch_Grp_sets:
  "st' \<in> set (rmatch ic (Grp i a) st) \<Longrightarrow> map_of (snd st') i \<noteq> None"
  by (cases st) auto

lemma rsearch_Some:
  "rsearch ic r s = Some c \<Longrightarrow> \<exists>s' st. st \<in> set (rmatch ic r (s', [])) \<and> c = snd st"
proof (induction s)
  case Nil
  then obtain st rest where "rmatch ic r ([], []) = st # rest" and "c = snd st"
    by (auto split: list.splits)
  then have "st \<in> set (rmatch ic r ([], []))" by simp
  with \<open>c = snd st\<close> show ?case by blast
next
  case (Cons x t)
  show ?case
  proof (cases "rmatch ic r (x # t, [])")
    case Nil
    with Cons show ?thesis by simp
  next
    case (Cons st rest)
    then have "st \<in> set (rmatch ic r (x # t, []))" by simp
    moreover have "c = snd st" using Cons Cons.prems by simp
    ultimately show ?thesis by blast
  qed
qed

lemma textRx_group2:
  assumes "rsearch True textRx s = Some parts"
  shows "cap parts 2 \<noteq> None"
proof -
  from rsearch_Some [OF assms] obtain s' st where
    st: "st \<in> set (rmatch True textRx (s', []))" and p: "parts = snd st" by blast
  obtain a rest where t: "textRx = Seq a (Seq (Grp 2 (Repeat [LowerAZ] 3 None True)) rest)"
    by (simp add: textRx_def seqs_def)
  from st obtain st1 st2 where "st2 \<in> set (rmatch True (Grp 2 (Repeat [LowerAZ] 3 None True)) st1)"
    and "st \<in> set (rmatch True rest st2)"
    unfolding t by auto
  then have "map_of (snd st) 2 \<noteq> None"
    using rmatch_Grp_sets rmatch_keeps by blast
  then show ?thesis by (simp add: cap_def p)
qed

lemma parseDate_App_returns: "\<exists>r. parseDate_App host x = Inr r"
proof (cases x)
  case None
  then show ?thesis by (simp add: parseDate_App_def)
next
  case (Some s)
  have "\<exists>r. tryText_App s = Inr r"
    using textRx_group2 [of "replaceCommaSpace s"]
    by (auto simp: tryText_App_def split: option.splits)
  then show ?thesis
    using Some by (auto simp: parseDate_App_def split: option.splits sum.splits)
qed

section \<open>Matching the date patterns on rendered dates\<close>

lemma digit_not:
  assumes "isDigit c"
  shows "\<not> isSpace c" "c \<noteq> CHR ''.''" "c \<noteq> CHR ''/''" "c \<noteq> CHR ''-''" "c \<noteq> CHR ''+''"
    "c \<noteq> CHR '' ''" "c \<noteq> CHR '',''" "\<not> isLowerAZ c" "\<not> isUpperAZ c"
  using assms by (auto simp: isDigit_def isSpace_def isLowerAZ_def isUpperAZ_def)

lemma sep_not_digit:
  assumes "s \<in> set ''./-''"
  shows "\<not> isDigit s"
  using assms by (auto simp: isDigit_def)

lemma asciiUpper_id: "\<not> isLowerAZ c \<Longrightarrow> asciiUpper c = c"
proof -
  assume a: "\<not> isLowerAZ c"
  have "map_of (zip ''abcdefghijklmnopqrstuvwxyz'' ''ABCDEFGHIJKLMNOPQRSTUVWXYZ'') c = None"
    using a unfolding isLowerAZ_def by (subst map_of_zip_is_None) simp_all
  then show ?thesis by (simp only: asciiUpper_def option.case)
qed

lemma asciiLower_id: "\<not> isUpperAZ c \<Longrightarrow> asciiLower c = c"
proof -
  assume a: "\<not> isUpperAZ c"
  have "map_of (zip ''ABCDEFGHIJKLMNOPQRSTUVWXYZ'' ''abcdefghijklmnopqrstuvwxyz'') c = None"
    using a unfolding isUpperAZ_def by (subst map_of_zip_is_None) simp_all
  then show ?thesis by (simp only: asciiLower_def option.case)
qed

lemma asciiUpper_upper: "isLowerAZ c \<Longrightarrow> isUpperAZ (asciiUpper c)"
  unfolding isLowerAZ_def by (auto simp: asciiUpper_def isUpperAZ_def)

lemma asciiLower_lower: "isUpperAZ c \<Longrightarrow> isLowerAZ (asciiLower c)"
  unfolding isUpperAZ_def by (auto simp: asciiLower_def isLowerAZ_def)

lemma lower_not_upper: "isLowerAZ c \<Longrightarrow> \<not> isUpperAZ c"
  unfolding isLowerAZ_def by (auto simp: isUpperAZ_def)

lemma letter_not_digit: "isLetter c \<Longrightarrow> \<not> isDigit c"
  unfolding isLetter_def isLowerAZ_def isUpperAZ_def by (auto simp: isDigit_def)

lemma letter_not_space: "isLetter c \<Longrightarrow> c \<noteq> CHR '' ''"
  unfolding isLetter_def isLowerAZ_def isUpperAZ_def by auto

lemma upper_not_digit: "isUpperAZ c \<Longrightarrow> \<not> isDigit c" and lower_not_digit: "isLowerAZ c \<Longrightarrow> \<not> isDigit c"
  using letter_not_digit by (auto simp: isLetter_def)

lemma inClass_Digit: "inClass ic [Digit] c = isDigit c"
proof (cases "isDigit c")
  case True
  then show ?thesis by (simp add: inClass_def)
next
  case False
  have "\<not> isDigit (asciiUpper c)"
    using False asciiUpper_id [of c] asciiUpper_upper [of c] upper_not_digit by metis
  moreover have "\<not> isDigit (asciiLower c)"
    using False asciiLower_id [of c] asciiLower_lower [of c] lower_not_digit by metis
  ultimately show ?thesis using False by (simp add: inClass_def)
qed

lemma inClass_letters: "inClass True [LowerAZ] c = isLetter c"
proof (cases "isLowerAZ c")
  case True
  then show ?thesis by (simp add: inClass_def isLetter_def)
next
  case low: False
  show ?thesis
  proof (cases "isUpperAZ c")
    case True
    then show ?thesis using asciiLower_lower by (simp add: inClass_def isLetter_def)
  next
    case False
    then show ?thesis
      using low asciiUpper_id [of c] asciiLower_id [of c] by (simp add: inClass_def isLetter_def)
  qed
qed

lemma inClass_OneOf:
  assumes "\<forall>x\<in>set s. \<not> isLetter x"
  shows "inClass ic [OneOf s] c = (c \<in> set s)"
proof -
  have u: "c \<in> set s" if "asciiUpper c \<in> set s"
  proof (cases "isLowerAZ c")
    case True
    then show ?thesis using assms that asciiUpper_upper [of c] by (auto simp: isLetter_def)
  next
    case False
    then show ?thesis using that asciiUpper_id [of c] by simp
  qed
  have l: "c \<in> set s" if "asciiLower c \<in> set s"
  proof (cases "isUpperAZ c")
    case True
    then show ?thesis using assms that asciiLower_lower [of c] by (auto simp: isLetter_def)
  next
    case False
    then show ?thesis using that asciiLower_id [of c] by simp
  qed
  show ?thesis using u l by (auto simp: inClass_def)
qed

lemma inClass_space: "inClass ic [OneOf '' ''] c = (c = CHR '' '')"
  by (subst inClass_OneOf) (simp_all add: isLetter_def isLowerAZ_def isUpperAZ_def)

lemma inClass_comma: "inClass ic [OneOf '',''] c = (c = CHR '','')"
  by (subst inClass_OneOf) (simp_all add: isLetter_def isLowerAZ_def isUpperAZ_def)

lemma inClass_seps: "inClass ic [OneOf ''./-''] c = (c \<in> set ''./-'')"
  by (subst inClass_OneOf) (simp_all add: isLetter_def isLowerAZ_def isUpperAZ_def)

lemma rmatch_Grp_Repeat:
  "rmatch ic (Grp i (Repeat cs lo hi g)) (s, c) =
     map (\<lambda>k. (drop k s, (i, take k s) # c))
       (let n = length (takeWhile (inClass ic cs) s);
            m = (case hi of None \<Rightarrow> n | Some h \<Rightarrow> min n h)
        in if g then rev [lo..<Suc m] else [lo..<Suc m])"
proof -
  define n where "n = length (takeWhile (inClass ic cs) s)"
  define m where "m = (case hi of None \<Rightarrow> n | Some h \<Rightarrow> min n h)"
  have "n \<le> length s" unfolding n_def by (rule length_takeWhile_le)
  then have m: "m \<le> length s" unfolding m_def by (auto split: option.splits)
  have k: "length s - length (drop k s) = k" if "k < Suc m" for k
    using that m by simp
  show ?thesis
    unfolding n_def [symmetric] m_def [symmetric] Let_def
    using k by (auto simp: Let_def n_def [symmetric] m_def [symmetric])
qed

lemma takeWhile_digits_end:
  "list_all isDigit ds \<Longrightarrow> takeWhile (inClass ic [Digit]) ds = ds"
  by (simp add: inClass_Digit list_all_iff)

lemma takeWhile_digits_then:
  "list_all isDigit ds \<Longrightarrow> \<not> isDigit x \<Longrightarrow> takeWhile (inClass ic [Digit]) (ds @ x # rest) = ds"
  by (simp add: inClass_Digit list_all_iff takeWhile_tail)

lemma takeWhile_letters_then:
  "list_all isLetter name \<Longrightarrow> \<not> isLetter x \<Longrightarrow>
     takeWhile (inClass True [LowerAZ]) (name @ x # rest) = name"
  by (simp add: inClass_letters list_all_iff takeWhile_tail)

lemma rmatch_chr_hit: "rmatch ic (Seq (chr CHR '' '') B) (CHR '' '' # s, c) = rmatch ic B (s, c)"
  by (simp add: chr_def inClass_space)

lemma rmatch_chr_miss: "x \<noteq> CHR '' '' \<Longrightarrow> rmatch ic (Seq (chr CHR '' '') B) (x # s, c) = []"
  by (simp add: chr_def inClass_space)

lemma rmatch_chr_end: "rmatch ic (Seq (chr CHR '' '') B) ([], c) = []"
  by (simp add: chr_def)

lemma text_tail:
  assumes "isDigit e" "isDigit f" "isDigit g" "isDigit h"
  shows "rmatch True (seqs [Opt (Grp 3 (Repeat [Digit] 1 (Some 2) True)), Opt (lit '', ''),
            Grp 4 (Repeat [Digit] 4 (Some 4) True)]) ([e, f, g, h], c)
         = [([], (4, [e, f, g, h]) # c)]"
  using assms digit_not(7) [OF assms(1)] digit_not(7) [OF assms(2)] digit_not(7) [OF assms(3)]
  by (simp add: seqs_def lit_def chr_def inClass_Digit inClass_comma Let_def upt_rec
      numeral_eq_Suc)

lemma seqs_Cons: "seqs (r # rs) = Seq r (seqs rs)"
  by (simp add: seqs_def)

lemma text_name:
  assumes nm: "list_all isLetter name" "3 \<le> length name"
    and ds: "isDigit e" "isDigit f" "isDigit g" "isDigit h"
  shows "rmatch True (seqs [Grp 2 (Repeat [LowerAZ] 3 None True), chr CHR '' '',
            Opt (Grp 3 (Repeat [Digit] 1 (Some 2) True)), Opt (lit '', ''),
            Grp 4 (Repeat [Digit] 4 (Some 4) True)]) (name @ CHR '' '' # [e, f, g, h], c)
         = [([], (4, [e, f, g, h]) # (2, name) # c)]"
proof -
  define T3 where "T3 = seqs [Opt (Grp 3 (Repeat [Digit] 1 (Some 2) True)), Opt (lit '', ''),
            Grp 4 (Repeat [Digit] 4 (Some 4) True)]"
  define s where "s = name @ CHR '' '' # [e, f, g, h]"
  define n where "n = length name"
  define F where "F = (\<lambda>k. rmatch True (Seq (chr CHR '' '') T3) (drop k s, (2, take k s) # c))"
  have sp: "\<not> isLetter CHR '' ''" by (simp add: isLetter_def isLowerAZ_def isUpperAZ_def)
  have tw: "takeWhile (inClass True [LowerAZ]) s = name"
    unfolding s_def by (rule takeWhile_letters_then [OF nm(1) sp])
  have ks: "rev [3..<Suc n] = n # rev [3..<n]" using nm(2) by (simp add: n_def)
  have dn: "drop n s = CHR '' '' # [e, f, g, h]" and tn: "take n s = name"
    by (simp_all add: s_def n_def)
  have top: "F n = [([], (4, [e, f, g, h]) # (2, name) # c)]"
    unfolding F_def dn tn rmatch_chr_hit T3_def by (rule text_tail [OF ds])
  have rest: "F k = []" if "k \<in> set (rev [3..<n])" for k
  proof -
    from that have k: "k < n" by simp
    then have dk: "drop k s = name ! k # (drop (Suc k) name @ CHR '' '' # [e, f, g, h])"
      unfolding s_def n_def by (simp add: Cons_nth_drop_Suc)
    have ne: "name ! k \<noteq> CHR '' ''"
      using nm(1) k letter_not_space unfolding n_def by (simp add: list_all_length)
    show ?thesis unfolding F_def dk by (rule rmatch_chr_miss [OF ne])
  qed
  have "rmatch True (Seq (Grp 2 (Repeat [LowerAZ] 3 None True)) (Seq (chr CHR '' '') T3)) (s, c)
      = concat (map F (rev [3..<Suc n]))"
    unfolding F_def rmatch.simps(4) rmatch_Grp_Repeat tw n_def [symmetric]
    by (simp add: comp_def del: rmatch.simps)
  also have "\<dots> = F n @ concat (map F (rev [3..<n]))" unfolding ks by simp
  also have "concat (map F (rev [3..<n])) = []" using rest by simp
  finally show ?thesis
    unfolding top s_def T3_def seqs_Cons by simp
qed

lemma text_day2:
  assumes "isDigit a" "isDigit b"
  shows "rmatch True (Opt (seqs [Grp 1 (Repeat [Digit] 1 (Some 2) True), chr CHR '' ''])) (a # b # CHR '' '' # s, [])
     = [(s, [(1, [a, b])]), (a # b # CHR '' '' # s, [])]"
  using assms digit_not(6) [OF assms(1)] digit_not(6) [OF assms(2)]
  by (simp add: seqs_def chr_def inClass_Digit inClass_space Let_def upt_rec numeral_eq_Suc
      isDigit_def [of "CHR '' ''"])

lemma text_day1:
  assumes "isDigit a"
  shows "rmatch True (Opt (seqs [Grp 1 (Repeat [Digit] 1 (Some 2) True), chr CHR '' ''])) (a # CHR '' '' # s, [])
     = [(s, [(1, [a])]), (a # CHR '' '' # s, [])]"
  using assms digit_not(6) [OF assms(1)]
  by (simp add: seqs_def chr_def inClass_Digit inClass_space Let_def upt_rec numeral_eq_Suc
      isDigit_def [of "CHR '' ''"])

lemma rsearch_hit: "rmatch ic r (x # t, []) = st # rest \<Longrightarrow> rsearch ic r (x # t) = Some (snd st)"
  by simp

lemma text_search:
  assumes ds: "list_all isDigit ds" "length ds = 1 \<or> length ds = 2"
    and nm: "list_all isLetter name" "3 \<le> length name"
    and ys: "isDigit e" "isDigit f" "isDigit g" "isDigit h"
  shows "rsearch True textRx (ds @ CHR '' '' # name @ CHR '' '' # [e, f, g, h])
     = Some [(4, [e, f, g, h]), (2, name), (1, ds)]"
proof -
  define O1 where "O1 = Opt (seqs [Grp 1 (Repeat [Digit] 1 (Some 2) True), chr CHR '' ''])"
  define T1 where "T1 = seqs [Grp 2 (Repeat [LowerAZ] 3 None True), chr CHR '' '',
            Opt (Grp 3 (Repeat [Digit] 1 (Some 2) True)), Opt (lit '', ''),
            Grp 4 (Repeat [Digit] 4 (Some 4) True)]"
  define s where "s = name @ CHR '' '' # [e, f, g, h]"
  have t: "textRx = Seq O1 T1" by (simp add: textRx_def O1_def T1_def seqs_Cons)
  have o: "rmatch True O1 (ds @ CHR '' '' # s, []) = [(s, [(1, ds)]), (ds @ CHR '' '' # s, [])]"
  proof -
    from ds(2) consider a where "ds = [a]" | a b where "ds = [a, b]"
      by (cases ds; cases "tl ds"; cases "tl (tl ds)") auto
    then show ?thesis
    proof cases
      case 1
      then show ?thesis using ds(1) text_day1 [of a s] by (simp add: O1_def)
    next
      case 2
      then show ?thesis using ds(1) text_day2 [of a b s] by (simp add: O1_def)
    qed
  qed
  have n: "rmatch True T1 (s, [(1, ds)]) = [([], (4, [e, f, g, h]) # (2, name) # [(1, ds)])]"
    unfolding T1_def s_def by (rule text_name [OF nm ys])
  obtain x t where xt: "ds @ CHR '' '' # s = x # t" by (cases ds) auto
  have "rmatch True textRx (x # t, [])
      = ([], [(4, [e, f, g, h]), (2, name), (1, ds)]) # rmatch True T1 (ds @ CHR '' '' # s, [])"
    unfolding t rmatch.simps(4) xt [symmetric] o
    by (simp only: list.map concat.simps append_Nil2 n append_Cons append_Nil)
  from rsearch_hit [OF this]
  have "rsearch True textRx (ds @ CHR '' '' # s) = Some [(4, [e, f, g, h]), (2, name), (1, ds)]"
    unfolding xt snd_conv .
  then show ?thesis unfolding s_def .
qed

lemma digits_cases:
  assumes "length ds = 1 \<or> length ds = 2"
  obtains a where "ds = [a]" | a b where "ds = [a, b]"
  using assms by (cases ds; cases "tl ds"; cases "tl (tl ds)") auto

lemma dmy_search_aux:
  assumes "list_all isDigit ds" "list_all isDigit ms" "list_all isDigit ys"
    and "ds = [a] \<or> ds = [a, b]" "ms = [c] \<or> ms = [c, d]" "ys = [e, f] \<or> ys = [e, f, g, h]"
    and "s1 \<in> set ''./-''" "s2 \<in> set ''./-''"
  shows "rsearch False dmyRx (ds @ s1 # ms @ s2 # ys) = Some [(3, ys), (2, ms), (1, ds)]"
proof -
  have n: "\<not> isDigit s1" "\<not> isDigit s2" using assms sep_not_digit by auto
  have m: "\<And>x. isDigit x \<Longrightarrow> x \<notin> set ''./-''"
    using digit_not by auto
  show ?thesis
    using assms(1-6) n m assms(7,8)
    by (elim disjE)
      (simp_all add: dmyRx_def seqs_def inClass_Digit inClass_seps Let_def upt_rec numeral_eq_Suc
        del: set_simps)
qed

lemma concat_map_Nil: "(\<And>x. x \<in> set xs \<Longrightarrow> f x = []) \<Longrightarrow> concat (map f xs) = []"
  by (induction xs) auto

lemma dmy_search:
  assumes "list_all isDigit ds" "length ds = 1 \<or> length ds = 2"
    and "list_all isDigit ms" "length ms = 1 \<or> length ms = 2"
    and "list_all isDigit ys" "length ys = 4"
    and "s1 \<in> set ''./-''" "s2 \<in> set ''./-''"
  shows "rsearch False dmyRx (ds @ s1 # ms @ s2 # ys) = Some [(3, ys), (2, ms), (1, ds)]"
proof -
  obtain a b where d: "ds = [a] \<or> ds = [a, b]" using digits_cases [OF assms(2)] by metis
  obtain c d where m: "ms = [c] \<or> ms = [c, d]" using digits_cases [OF assms(4)] by metis
  obtain e f g h where y: "ys = [e, f, g, h]"
    using assms(6) by (cases ys; cases "tl ys"; cases "tl (tl ys)"; cases "tl (tl (tl ys))") auto
  show ?thesis
    by (rule dmy_search_aux [OF assms(1,3,5) d m _ assms(7,8)]) (simp add: y)
qed

lemma no_sep_no_dmy:
  assumes "\<forall>x\<in>set s. x \<notin> set ''./-''"
  shows "rsearch False dmyRx s = None"
proof -
  define T where "T = seqs [Grp 2 (Repeat [Digit] 1 (Some 2) True), Cls [OneOf ''./-''],
           Grp 3 (Repeat [Digit] 2 (Some 4) True)]"
  have d: "dmyRx = Seq (Grp 1 (Repeat [Digit] 1 (Some 2) True)) (Seq (Cls [OneOf ''./-'']) T)"
    by (simp add: dmyRx_def T_def seqs_Cons)
  have sep: "rmatch False (Seq (Cls [OneOf ''./-'']) T) (u, c) = []"
    if "\<forall>x\<in>set u. x \<notin> set ''./-''" for u c
  proof (cases u)
    case Nil
    then show ?thesis by simp
  next
    case (Cons a list)
    then have "a \<notin> set ''./-''" using that by simp
    then show ?thesis unfolding Cons by (simp add: inClass_seps del: set_simps)
  qed
  have at: "rmatch False dmyRx (u, c) = []" if u: "\<forall>x\<in>set u. x \<notin> set ''./-''" for u c
  proof -
    have "rmatch False (Seq (Cls [OneOf ''./-'']) T) st = []"
      if "st \<in> set (rmatch False (Grp 1 (Repeat [Digit] 1 (Some 2) True)) (u, c))" for st
    proof -
      from that obtain k where "st = (drop k u, (1, take k u) # c)"
        unfolding rmatch_Grp_Repeat by auto
      moreover have "\<forall>x\<in>set (drop k u). x \<notin> set ''./-''"
        using u by (meson in_set_dropD)
      ultimately show ?thesis using sep by simp
    qed
    then show ?thesis
      unfolding d rmatch.simps(4) by (simp only: concat_map_Nil)
  qed
  show ?thesis using assms
  proof (induction s)
    case Nil
    have "rmatch False dmyRx ([], []) = []" by (rule at) simp
    then show ?case by simp
  next
    case (Cons x t)
    have "rsearch False dmyRx t = None" using Cons by simp
    moreover have "rmatch False dmyRx (x # t, []) = []" using Cons.prems by (rule at)
    ultimately show ?case by simp
  qed
qed

lemma replaceCommaSpace_id: "CHR '','' \<notin> set s \<Longrightarrow> replaceCommaSpace s = s"
  by (induction s rule: replaceCommaSpace.induct) auto

lemma parseInt10_digits:
  assumes "list_all isDigit ds" "ds \<noteq> []"
  shows "parseInt10 ds = Some (int (decimal ds))"
proof -
  obtain x t where xt: "ds = x # t" using assms(2) by (cases ds) auto
  have x: "isDigit x" using assms(1) xt by simp
  have "dropWhile isSpace ds = ds" using digit_not(1) [OF x] xt by simp
  moreover have "takeWhile isDigit ds = ds" using assms(1) by (simp add: list_all_iff)
  ultimately show ?thesis
    using digit_not(4,5) [OF x] xt assms(2) by (simp add: parseInt10_def decimal_def Let_def)
qed

lemma isDigit_digitChar: "isDigit (digitChar n)"
  unfolding isDigit_def digitChar_def by (rule nth_mem) simp

lemma indexOf_nth: "distinct xs \<Longrightarrow> i < length xs \<Longrightarrow> indexOf xs (xs ! i) = i"
proof (induction xs arbitrary: i)
  case Nil
  then show ?case by simp
next
  case (Cons x xs)
  then show ?case by (cases i) auto
qed

lemma digitVal_digitChar: "digitVal (digitChar n) = n mod 10"
  unfolding digitVal_def digitChar_def by (rule indexOf_nth) simp_all

lemma pad_Suc: "pad (Suc w) n = pad w (n div 10) @ [digitChar n]"
proof -
  have "rev [0..<Suc w] = rev (map Suc [0..<w]) @ [0]"
    by (simp only: map_Suc_upt upt_conv_Cons [of 0 "Suc w"] rev.simps)
  then show ?thesis
    by (simp add: pad_def rev_map [symmetric] comp_def div_mult2_eq del: upt_Suc)
qed

lemma pad_0: "pad 0 n = []"
  by (simp add: pad_def)

lemma length_pad: "length (pad w n) = w"
  by (simp add: pad_def)

lemma digits_pad: "list_all isDigit (pad w n)"
  by (simp add: pad_def list_all_iff isDigit_digitChar)

lemma decimal_snoc: "decimal (xs @ [x]) = 10 * decimal xs + digitVal x"
  by (simp add: decimal_def)

lemma decimal_pad: "decimal (pad w n) = n mod 10 ^ w"
proof (induction w arbitrary: n)
  case 0
  then show ?case by (simp add: pad_0 decimal_def)
next
  case (Suc w)
  have "decimal (pad (Suc w) n) = 10 * ((n div 10) mod 10 ^ w) + n mod 10"
    by (simp add: pad_Suc decimal_snoc Suc digitVal_digitChar)
  also have "\<dots> = n mod 10 ^ Suc w"
    by (simp add: mod_mult2_eq)
  finally show ?case .
qed

lemma showNat_small:
  "n < 10 \<Longrightarrow> showNat n = pad 1 n" "10 \<le> n \<Longrightarrow> n < 100 \<Longrightarrow> showNat n = pad 2 n"
proof -
  show a: "showNat n = pad 1 n" if "n < 10" for n
    using that by (simp add: pad_def)
  assume "10 \<le> n" "n < 100"
  then have "n div 10 < 10" by simp
  then show "showNat n = pad 2 n"
    using a [of "n div 10"] \<open>10 \<le> n\<close>
    by (subst showNat.simps) (simp add: pad_def numeral_2_eq_2 del: showNat.simps)
qed

lemma DayFromYear_range:
  assumes "0 \<le> y" "y \<le> 9999"
  shows "- 720000 \<le> DayFromYear y" "DayFromYear y \<le> 3660000"
proof -
  have "400 * DayFromYear y \<le> 146097 * y" "146097 * y - 288000000 \<le> 400 * DayFromYear y"
    using DayFromYear_bounds [of y] by (simp_all add: algebra_simps)
  with assms show "- 720000 \<le> DayFromYear y" "DayFromYear y \<le> 3660000"
    by linarith+
qed

lemma DateUTC_valid:
  assumes "validDate y m d" "100 \<le> y" "y \<le> 9999"
  shows "DateUTC (Some y) (Some (m - 1)) (Some d) = Some (utcMidnight y m d)"
proof -
  have m: "1 \<le> m" "m \<le> 12" using assms(1) by (simp_all add: validDate_def)
  have w: "0 \<le> monthStarts (leapDays y) ! nat (m - 1) + d - 1"
    "monthStarts (leapDays y) ! nat (m - 1) + d - 1 < 366"
    using dayWithinYear_valid [OF assms(1)] leapDays_cases [of y] by auto
  have "- 720000 \<le> MakeDay y (m - 1) d" "MakeDay y (m - 1) d \<le> 3661000"
    unfolding MakeDay_valid [OF m] using w DayFromYear_range [of y] assms(2,3) by linarith+
  then have "\<bar>MakeDay y (m - 1) d * msPerDay\<bar> \<le> 8640000000000000"
    by (simp add: msPerDay_def abs_le_iff)
  then show ?thesis
    using assms(2) by (simp add: DateUTC_def TimeClip_def utcMidnight_def)
qed

lemma rendered_number:
  assumes "ds = pad 2 n \<or> ds = showNat n" "1 \<le> n" "n < 100"
  shows "list_all isDigit ds" "length ds = 1 \<or> length ds = 2" "decimal ds = n" "ds \<noteq> []"
proof -
  have "ds = pad 1 n \<and> n < 10 \<or> ds = pad 2 n"
    using assms showNat_small [of n] by (cases "n < 10") auto
  then show "list_all isDigit ds" "length ds = 1 \<or> length ds = 2" "decimal ds = n"
    using assms(3) by (auto simp: digits_pad length_pad decimal_pad)
  then show "ds \<noteq> []" by auto
qed

lemma year_digits:
  assumes "0 \<le> y" "y \<le> 9999"
  shows "list_all isDigit (pad 4 (nat y))" "length (pad 4 (nat y)) = 4"
    "int (decimal (pad 4 (nat y))) = y"
  using assms by (simp_all add: digits_pad length_pad decimal_pad)

lemma tryDMY_rendered:
  assumes v: "validDate y m d" and y: "100 \<le> y" "y \<le> 9999"
    and ds: "ds = pad 2 (nat d) \<or> ds = showNat (nat d)"
    and ms: "ms = pad 2 (nat m) \<or> ms = showNat (nat m)"
    and s: "s1 \<in> set ''./-''" "s2 \<in> set ''./-''"
  shows "tryDMY (ds @ s1 # ms @ s2 # pad 4 (nat y)) = Some (utcMidnight y m d)"
proof -
  have r: "1 \<le> m" "m \<le> 12" "1 \<le> d" "d \<le> 31"
    using v month_cases [of m] leapDays_cases [of y]
    by (auto simp: validDate_def daysInMonth_def)
  have d: "list_all isDigit ds" "length ds = 1 \<or> length ds = 2" "int (decimal ds) = d" "ds \<noteq> []"
    using rendered_number [OF ds] r by simp_all
  have m: "list_all isDigit ms" "length ms = 1 \<or> length ms = 2" "int (decimal ms) = m" "ms \<noteq> []"
    using rendered_number [OF ms] r by simp_all
  have yy: "list_all isDigit (pad 4 (nat y))" "length (pad 4 (nat y)) = 4"
    "int (decimal (pad 4 (nat y))) = y" "pad 4 (nat y) \<noteq> []"
    using year_digits [of y] y by auto
  have "rsearch False dmyRx (ds @ s1 # ms @ s2 # pad 4 (nat y))
      = Some [(3, pad 4 (nat y)), (2, ms), (1, ds)]"
    by (rule dmy_search [OF d(1,2) m(1,2) yy(1,2) s])
  then show ?thesis
    using y DateUTC_valid [OF v y]
    by (simp add: tryDMY_def cap_def parseIntArg_def parseInt10_digits d m yy)
qed

lemma month_key_length:
  assumes "map_of months (toLowerCase (take 3 name)) = Some k"
  shows "3 \<le> length name"
proof -
  from assms have "(toLowerCase (take 3 name), k) \<in> set months" by (rule map_of_SomeD)
  then have "length (toLowerCase (take 3 name)) = 3" by (auto simp: months_def)
  then show ?thesis by (simp add: toLowerCase_def)
qed

lemma letter_not_sep: "isLetter c \<Longrightarrow> c \<notin> set ''./-'' \<and> c \<noteq> CHR '',''"
  unfolding isLetter_def isLowerAZ_def isUpperAZ_def by auto

lemma plain_not_sep:
  assumes "isDigit c \<or> isLetter c \<or> c = CHR '' ''"
  shows "c \<notin> set ''./-''" "c \<noteq> CHR '',''"
  using assms digit_not(2,3,4,7) [of c] letter_not_sep [of c] by auto

lemma text_no_sep:
  assumes "list_all isDigit ds" "list_all isLetter name" "list_all isDigit ys"
  shows "\<forall>x\<in>set (ds @ CHR '' '' # name @ CHR '' '' # ys). x \<notin> set ''./-''"
    and "CHR '','' \<notin> set (ds @ CHR '' '' # name @ CHR '' '' # ys)"
proof -
  have m: "\<forall>x\<in>set (ds @ CHR '' '' # name @ CHR '' '' # ys).
      isDigit x \<or> isLetter x \<or> x = CHR '' ''"
    using assms by (auto simp: list_all_iff)
  show "\<forall>x\<in>set (ds @ CHR '' '' # name @ CHR '' '' # ys). x \<notin> set ''./-''"
    using m plain_not_sep(1) by blast
  show "CHR '','' \<notin> set (ds @ CHR '' '' # name @ CHR '' '' # ys)"
    using m plain_not_sep(2) by blast
qed

lemma tryText_rendered:
  assumes v: "validDate y m d" and y: "100 \<le> y" "y \<le> 9999"
    and ds: "ds = pad 2 (nat d) \<or> ds = showNat (nat d)"
    and nm: "list_all isLetter name" "map_of months (toLowerCase (take 3 name)) = Some (m - 1)"
  shows "tryText (ds @ CHR '' '' # name @ CHR '' '' # pad 4 (nat y)) = Some (utcMidnight y m d)"
    and "tryDMY (ds @ CHR '' '' # name @ CHR '' '' # pad 4 (nat y)) = None"
proof -
  have r: "1 \<le> d" "d \<le> 31"
    using v month_cases [of m] leapDays_cases [of y]
    by (auto simp: validDate_def daysInMonth_def)
  have d: "list_all isDigit ds" "length ds = 1 \<or> length ds = 2" "int (decimal ds) = d" "ds \<noteq> []"
    using rendered_number [OF ds] r by simp_all
  have yy: "list_all isDigit (pad 4 (nat y))" "length (pad 4 (nat y)) = 4"
    "int (decimal (pad 4 (nat y))) = y" "pad 4 (nat y) \<noteq> []"
    using year_digits [of y] y by auto
  obtain e f g h where p: "pad 4 (nat y) = [e, f, g, h]"
    using yy(2) by (cases "pad 4 (nat y)"; cases "tl (pad 4 (nat y))";
      cases "tl (tl (pad 4 (nat y)))"; cases "tl (tl (tl (pad 4 (nat y))))") auto
  have e: "isDigit e" "isDigit f" "isDigit g" "isDigit h" using yy(1) p by simp_all
  let ?s = "ds @ CHR '' '' # name @ CHR '' '' # pad 4 (nat y)"
  have c: "replaceCommaSpace ?s = ?s"
    by (rule replaceCommaSpace_id) (rule text_no_sep(2) [OF d(1) nm(1) yy(1)])
  have "rsearch True textRx ?s = Some [(4, pad 4 (nat y)), (2, name), (1, ds)]"
    unfolding p by (rule text_search [OF d(1,2) nm(1) month_key_length [OF nm(2)] e])
  then show "tryText ?s = Some (utcMidnight y m d)"
    using DateUTC_valid [OF v y] d(4)
    by (simp add: tryText_def c cap_def textDate_def nm(2) orElse_def parseIntArg_def
        parseInt10_digits d yy)
  show "tryDMY ?s = None"
    using no_sep_no_dmy [OF text_no_sep(1) [OF d(1) nm(1) yy(1)]] by (simp add: tryDMY_def)
qed

section \<open>The reducer's frame\<close>

text \<open>
  C10. Each of SET_URL, SET_FILTER_DATE, SET_PAGE and TOGGLE_SIX_MONTHS_FILTER changes its
  own field only: the new state is the old one with that single field replaced, so jobs,
  isLoading, status and error (and every other field) are as before. START_SCAN resets
  jobs to the empty list, error to the empty string and page to 1. SET_JOBS and SET_ERROR
  both set isLoading to false and clear status.
\<close>

theorem crawlerReducer_frame:
  "crawlerReducer s (SET_URL u) = s\<lparr>url := u\<rparr>
   \<and> crawlerReducer s (SET_FILTER_DATE f) = s\<lparr>filterDate := f\<rparr>
   \<and> crawlerReducer s (SET_PAGE p) = s\<lparr>page := p\<rparr>
   \<and> crawlerReducer s (TOGGLE_SIX_MONTHS_FILTER b) = s\<lparr>showNextSixMonths := b\<rparr>
   \<and> jobs (crawlerReducer s (SET_URL u)) = jobs s
   \<and> isLoading (crawlerReducer s (SET_URL u)) = isLoading s
   \<and> status (crawlerReducer s (SET_URL u)) = status s
   \<and> error (crawlerReducer s (SET_URL u)) = error s
   \<and> jobs (crawlerReducer s (SET_FILTER_DATE f)) = jobs s
   \<and> isLoading (crawlerReducer s (SET_FILTER_DATE f)) = isLoading s
   \<and> status (crawlerReducer s (SET_FILTER_DATE f)) = status s
   \<and> error (crawlerReducer s (SET_FILTER_DATE f)) = error s
   \<and> jobs (crawlerReducer s (SET_PAGE p)) = jobs s
   \<and> isLoading (crawlerReducer s (SET_PAGE p)) = isLoading s
   \<and> status (crawlerReducer s (SET_PAGE p)) = status s
   \<and> error (crawlerReducer s (SET_PAGE p)) = error s
   \<and> jobs (crawlerReducer s (TOGGLE_SIX_MONTHS_FILTER b)) = jobs s
   \<and> isLoading (crawlerReducer s (TOGGLE_SIX_MONTHS_FILTER b)) = isLoading s
   \<and> status (crawlerReducer s (TOGGLE_SIX_MONTHS_FILTER b)) = status s
   \<and> error (crawlerReducer s (TOGGLE_SIX_MONTHS_FILTER b)) = error s
   \<and> jobs (crawlerReducer s START_SCAN) = []
   \<and> error (crawlerReducer s START_SCAN) = []
   \<and> page (crawlerReducer s START_SCAN) = 1
   \<and> isLoading (crawlerReducer s (SET_JOBS js)) = False
   \<and> status (crawlerReducer s (SET_JOBS js)) = []
   \<and> isLoading (crawlerReducer s (SET_ERROR e)) = False
   \<and> status (crawlerReducer s (SET_ERROR e)) = []"
  by simp

theorem crawlerReducer_frame_witness:
  "crawlerReducer (initialState\<lparr>url := ''a.example'', page := 3\<rparr>) (SET_FILTER_DATE ''2025-01-15'')
     = \<lparr>url = ''a.example'', jobs = [], isLoading = False, status = [], error = [],
        page = 3, filterDate = ''2025-01-15'', showNextSixMonths = False\<rparr>"
  using crawlerReducer_frame [of "initialState\<lparr>url := ''a.example'', page := 3\<rparr>"]
  by (simp add: initialState_def)

section \<open>parseDate on a day that the month does not have\<close>

lemma march_3_2025: "utcMidnight 2025 3 3 = 1740960000000"
  by (simp add: utcMidnight_def MakeDay_def DayFromYear_def monthStarts_def leapDays_def
      DaysInYear_def msPerDay_def)

text \<open>
  C1 asks that parseDate return null for digits that name a day the month does not have.
  The code does not: Date.UTC carries the surplus days into the next month and the test
  \<^verbatim>\<open>!isNaN(date.getTime())\<close> accepts the result. On \<^verbatim>\<open>31/02/2025\<close> each of the three
  variants of parseDate returns the time value 1740960000000, which is 3 March 2025 UTC.
\<close>

theorem parseDate_rolls_over:
  "parseDate host (Some ''31/02/2025'') = Some 1740960000000
   \<and> parseDate_App host (Some ''31/02/2025'') = Inr (Some 1740960000000)
   \<and> parseDate_basic host (Some ''31/02/2025'') = Some 1740960000000
   \<and> utcDate 1740960000000 = (2025, 3, 3)"
proof -
  have t: "tryDMY ''31/02/2025'' = Some 1740960000000" by code_simp
  have v: "validDate 2025 3 3" by (simp add: validDate_def daysInMonth_def)
  have "utcDate 1740960000000 = (2025, 3, 3)"
    using utcDate_utcMidnight [OF v] by (simp add: march_3_2025)
  then show ?thesis
    by (simp add: parseDate_def parseDate_App_def parseDate_basic_def t)
qed

theorem parseDate_rolls_over_witness:
  "map_option utcDate (parseDate noHost (Some ''31/02/2025'')) = Some (2025, 3, 3)"
  using parseDate_rolls_over [of noHost] by simp

section \<open>parseDate is total\<close>

text \<open>
  C9. parseDate returns null for null and for the empty string, and it never throws: the
  only operation in it that can throw is \<^verbatim>\<open>parts[2].substring(0, 3)\<close> of App.jsx, and
  group 2 is defined in every match of the pattern. The other two variants contain no
  operation that can throw, which their result type records.
\<close>

theorem parseDate_total:
  "parseDate host None = None \<and> parseDate host (Some []) = None
   \<and> parseDate_App host None = Inr None \<and> parseDate_App host (Some []) = Inr None
   \<and> parseDate_basic host None = None \<and> parseDate_basic host (Some []) = None
   \<and> (\<exists>r. parseDate_App host x = Inr r)"
  using parseDate_App_returns [of host x]
  by (simp add: parseDate_def parseDate_App_def parseDate_basic_def)

theorem parseDate_total_witness:
  "parseDate_App noHost (Some ''March 2025'') = Inr None \<and> parseDate noHost None = None"
proof -
  have "tryDMY ''March 2025'' = None" by code_simp
  moreover have "tryText_App ''March 2025'' = Inr None" by code_simp
  ultimately show ?thesis
    using parseDate_total [of noHost "Some ''March 2025''"]
    by (simp add: parseDate_App_def newDate_def noHost_def parseIsoDateOnly_def)
qed

section \<open>parseDate on rendered dates\<close>

lemma tryDMY_rendered_yy:
  assumes v: "validDate y m d" and y: "2000 \<le> y" "y \<le> 2099"
    and ds: "ds = pad 2 (nat d) \<or> ds = showNat (nat d)"
    and ms: "ms = pad 2 (nat m) \<or> ms = showNat (nat m)"
    and s: "s1 \<in> set ''./-''" "s2 \<in> set ''./-''"
  shows "tryDMY (ds @ s1 # ms @ s2 # pad 2 (nat (y - 2000))) = Some (utcMidnight y m d)"
proof -
  have r: "1 \<le> m" "m \<le> 12" "1 \<le> d" "d \<le> 31"
    using v month_cases [of m] leapDays_cases [of y]
    by (auto simp: validDate_def daysInMonth_def)
  have d: "list_all isDigit ds" "length ds = 1 \<or> length ds = 2" "int (decimal ds) = d" "ds \<noteq> []"
    using rendered_number [OF ds] r by simp_all
  have m: "list_all isDigit ms" "length ms = 1 \<or> length ms = 2" "int (decimal ms) = m" "ms \<noteq> []"
    using rendered_number [OF ms] r by simp_all
  let ?ys = "pad 2 (nat (y - 2000))"
  have yy: "list_all isDigit ?ys" "length ?ys = 2" "int (decimal ?ys) = y - 2000"
    using y by (auto simp: digits_pad length_pad decimal_pad)
  have yn: "?ys \<noteq> []" using yy(2) by auto
  obtain a b where da: "ds = [a] \<or> ds = [a, b]" using digits_cases [OF d(2)] by metis
  obtain c e where mc: "ms = [c] \<or> ms = [c, e]" using digits_cases [OF m(2)] by metis
  obtain f g where yf: "?ys = [f, g]"
    using yy(2) by (cases ?ys; cases "tl ?ys"; cases "tl (tl ?ys)") auto
  have "rsearch False dmyRx (ds @ s1 # ms @ s2 # ?ys) = Some [(3, ?ys), (2, ms), (1, ds)]"
    by (rule dmy_search_aux [OF d(1) m(1) yy(1) da mc _ s]) (simp add: yf)
  then show ?thesis
    using y DateUTC_valid [OF v, simplified] 
    by (simp add: tryDMY_def cap_def parseIntArg_def parseInt10_digits d m yy yn)
qed

lemma tryText_App_tryText: "tryText_App s = Inr (tryText s)"
proof (cases "rsearch True textRx (replaceCommaSpace s)")
  case None
  then show ?thesis by (simp add: tryText_App_def tryText_def)
next
  case (Some parts)
  then obtain g where "cap parts 2 = Some g"
    using textRx_group2 [OF Some] by blast
  then show ?thesis using Some by (simp add: tryText_App_def tryText_def)
qed

lemma parseDate_rendered:
  assumes "validDate y m d" and "100 \<le> y" and "y \<le> 9999"
    and "ds = pad 2 (nat d) \<or> ds = showNat (nat d)"
    and "ms = pad 2 (nat m) \<or> ms = showNat (nat m)"
    and "sa \<in> set ''./-''" and "sb \<in> set ''./-''"
    and "list_all isLetter name"
    and "map_of months (toLowerCase (take 3 name)) = Some (m - 1)"
  shows "parseDate host (Some (ds @ [sa] @ ms @ [sb] @ pad 4 (nat y))) = Some (utcMidnight y m d)
    \<and> parseDate_App host (Some (ds @ [sa] @ ms @ [sb] @ pad 4 (nat y)))
        = Inr (Some (utcMidnight y m d))
    \<and> parseDate host (Some (ds @ '' '' @ name @ '' '' @ pad 4 (nat y))) = Some (utcMidnight y m d)
    \<and> parseDate_App host (Some (ds @ '' '' @ name @ '' '' @ pad 4 (nat y)))
        = Inr (Some (utcMidnight y m d))
    \<and> (2000 \<le> y \<and> y \<le> 2099 \<longrightarrow>
         parseDate host (Some (ds @ [sa] @ ms @ [sb] @ pad 2 (nat (y - 2000))))
           = Some (utcMidnight y m d)
         \<and> parseDate_App host (Some (ds @ [sa] @ ms @ [sb] @ pad 2 (nat (y - 2000))))
           = Inr (Some (utcMidnight y m d)))
    \<and> utcDate (utcMidnight y m d) = (y, m, d)"
proof -
  have a: "parseDate host (Some (ds @ [sa] @ ms @ [sb] @ pad 4 (nat y))) = Some (utcMidnight y m d)"
    "parseDate_App host (Some (ds @ [sa] @ ms @ [sb] @ pad 4 (nat y)))
        = Inr (Some (utcMidnight y m d))"
    using tryDMY_rendered [OF assms(1-7)] by (simp_all add: parseDate_def parseDate_App_def)
  have b: "parseDate host (Some (ds @ '' '' @ name @ '' '' @ pad 4 (nat y)))
      = Some (utcMidnight y m d)"
    "parseDate_App host (Some (ds @ '' '' @ name @ '' '' @ pad 4 (nat y)))
      = Inr (Some (utcMidnight y m d))"
    using tryText_rendered [OF assms(1-4,8,9)]
    by (simp_all add: parseDate_def parseDate_App_def tryText_App_tryText)
  have c: "parseDate host (Some (ds @ [sa] @ ms @ [sb] @ pad 2 (nat (y - 2000))))
      = Some (utcMidnight y m d)"
    "parseDate_App host (Some (ds @ [sa] @ ms @ [sb] @ pad 2 (nat (y - 2000))))
      = Inr (Some (utcMidnight y m d))" if "2000 \<le> y" "y \<le> 2099"
    using tryDMY_rendered_yy [OF assms(1) that assms(4-7)]
    by (simp_all add: parseDate_def parseDate_App_def)
  show ?thesis
    using a b c utcDate_utcMidnight [OF assms(1)] by simp
qed

lemma parseDate_order:
  assumes "s \<noteq> []"
  shows "parseDate host (Some s) =
      (case tryDMY s of Some t \<Rightarrow> Some t
       | None \<Rightarrow> (case tryText s of Some t \<Rightarrow> Some t
           | None \<Rightarrow> (case tryYMD s of Some t \<Rightarrow> Some t | None \<Rightarrow> newDate host s)))"
    and "parseDate_App host (Some s) =
      Inr (case tryDMY s of Some t \<Rightarrow> Some t
           | None \<Rightarrow> (case tryText s of Some t \<Rightarrow> Some t | None \<Rightarrow> newDate host s))"
  using assms
  by (simp_all add: parseDate_def parseDate_App_def tryText_App_tryText split: option.splits)

lemma iso_rendering_shadowed:
  "tryDMY ''2025-01-15'' = Some (utcMidnight 2015 1 25)"
  "tryYMD ''2025-01-15'' = Some (utcMidnight 2025 1 15)"
  by code_simp+

lemma trailing_day_unmatched:
  "tryDMY ''January 15, 2025'' = None" "tryText ''January 15, 2025'' = None"
  "tryYMD ''January 15, 2025'' = None" "parseIsoDateOnly ''January 15, 2025'' = None"
  by code_simp+

lemma text_before_ymd:
  "tryDMY ''5 Mar 2024 2025-02-3'' = None"
  "tryText ''5 Mar 2024 2025-02-3'' = Some (utcMidnight 2024 3 5)"
  "tryYMD ''5 Mar 2024 2025-02-3'' = Some (utcMidnight 2025 2 3)"
  by code_simp+

lemma one_digit_day:
  "tryDMY ''2025-02-3'' = None" "tryText ''2025-02-3'' = None"
  "tryYMD ''2025-02-3'' = Some (utcMidnight 2025 2 3)" "parseIsoDateOnly ''2025-02-3'' = None"
  by code_simp+

text \<open>
  C6. What holds, in the reducer-based variant and in App.jsx: for every valid day \<open>d\<close> of
  month \<open>m\<close> of a year \<open>y\<close> from 100 to 9999, with day and month written with or without
  a leading zero and the year with four digits, the rendering
  day-separator-month-separator-year (separators \<^verbatim>\<open>/\<close>, \<^verbatim>\<open>-\<close>, \<^verbatim>\<open>.\<close>) parses to midnight UTC
  of that day, and so does "day month-name year" for every name of letters whose first
  three letters, lower-cased, are the month's key in the month table; a two-digit year
  stands for 2000 plus its value; the UTC calendar date of the result is \<open>(y, m, d)\<close>.
  The reducer-based variant tries the day-month-year pattern, the textual month, the
  year-month-day pattern and the host's parser, in this order; App.jsx has no
  year-month-day attempt.

  What fails: the rendering \<^verbatim>\<open>2025-01-15\<close> of 15 January 2025 parses to 25 January 2015 in
  both files, because the unanchored day-month-year pattern matches \<^verbatim>\<open>25-01-15\<close> inside it,
  where the year-month-day pattern of the reducer-based variant alone gives 15 January
  2025. The rendering \<^verbatim>\<open>January 15, 2025\<close>, month name first, matches none of the patterns
  (the comma and space are replaced by a space, which the textual pattern does not accept
  before the year) and is left to the host's parser; a host in the time zone UTC+05:30
  reads it as 2025-01-14T18:30:00Z, whose UTC day is 14 January. On
  \<^verbatim>\<open>5 Mar 2024 2025-02-3\<close> the textual month wins over the year-month-day pattern, and
  \<^verbatim>\<open>2025-02-3\<close> is a date for the reducer-based variant only.
\<close>

theorem parseDate_formats:
  "(validDate y m d \<and> 100 \<le> y \<and> y \<le> 9999
      \<and> (ds = pad 2 (nat d) \<or> ds = showNat (nat d))
      \<and> (ms = pad 2 (nat m) \<or> ms = showNat (nat m))
      \<and> sa \<in> set ''./-'' \<and> sb \<in> set ''./-''
      \<and> list_all isLetter name \<and> map_of months (toLowerCase (take 3 name)) = Some (m - 1)
    \<longrightarrow> parseDate host (Some (ds @ [sa] @ ms @ [sb] @ pad 4 (nat y))) = Some (utcMidnight y m d)
      \<and> parseDate_App host (Some (ds @ [sa] @ ms @ [sb] @ pad 4 (nat y)))
          = Inr (Some (utcMidnight y m d))
      \<and> parseDate host (Some (ds @ '' '' @ name @ '' '' @ pad 4 (nat y)))
          = Some (utcMidnight y m d)
      \<and> parseDate_App host (Some (ds @ '' '' @ name @ '' '' @ pad 4 (nat y)))
          = Inr (Some (utcMidnight y m d))
      \<and> (2000 \<le> y \<and> y \<le> 2099 \<longrightarrow>
           parseDate host (Some (ds @ [sa] @ ms @ [sb] @ pad 2 (nat (y - 2000))))
             = Some (utcMidnight y m d)
           \<and> parseDate_App host (Some (ds @ [sa] @ ms @ [sb] @ pad 2 (nat (y - 2000))))
             = Inr (Some (utcMidnight y m d)))
      \<and> utcDate (utcMidnight y m d) = (y, m, d))
   \<and> (\<forall>s t. s \<noteq> [] \<longrightarrow>
          (tryDMY s = Some t \<longrightarrow> parseDate host (Some s) = Some t)
        \<and> (tryDMY s = None \<and> tryText s = Some t \<longrightarrow> parseDate host (Some s) = Some t)
        \<and> (tryDMY s = None \<and> tryText s = None \<and> tryYMD s = Some t
              \<longrightarrow> parseDate host (Some s) = Some t)
        \<and> (tryDMY s = None \<and> tryText s = None \<and> tryYMD s = None
              \<longrightarrow> parseDate host (Some s) = newDate host s))
   \<and> (\<forall>s t. s \<noteq> [] \<longrightarrow>
          (tryDMY s = Some t \<longrightarrow> parseDate_App host (Some s) = Inr (Some t))
        \<and> (tryDMY s = None \<and> tryText s = Some t
              \<longrightarrow> parseDate_App host (Some s) = Inr (Some t))
        \<and> (tryDMY s = None \<and> tryText s = None
              \<longrightarrow> parseDate_App host (Some s) = Inr (newDate host s)))
   \<and> parseDate host (Some ''2025-01-15'') = Some (utcMidnight 2015 1 25)
   \<and> parseDate_App host (Some ''2025-01-15'') = Inr (Some (utcMidnight 2015 1 25))
   \<and> tryYMD ''2025-01-15'' = Some (utcMidnight 2025 1 15)
   \<and> utcMidnight 2015 1 25 \<noteq> utcMidnight 2025 1 15
   \<and> parseDate host (Some ''January 15, 2025'') = host ''January 15, 2025''
   \<and> parseDate_App host (Some ''January 15, 2025'') = Inr (host ''January 15, 2025'')
   \<and> map_option utcDate (parseDate istParser (Some ''January 15, 2025'')) = Some (2025, 1, 14)
   \<and> parseDate host (Some ''5 Mar 2024 2025-02-3'') = Some (utcMidnight 2024 3 5)
   \<and> tryYMD ''5 Mar 2024 2025-02-3'' = Some (utcMidnight 2025 2 3)
   \<and> parseDate host (Some ''2025-02-3'') = Some (utcMidnight 2025 2 3)
   \<and> parseDate_App host (Some ''2025-02-3'') = Inr (host ''2025-02-3'')"
proof -
  let ?given = "validDate y m d \<and> 100 \<le> y \<and> y \<le> 9999
      \<and> (ds = pad 2 (nat d) \<or> ds = showNat (nat d))
      \<and> (ms = pad 2 (nat m) \<or> ms = showNat (nat m))
      \<and> sa \<in> set ''./-'' \<and> sb \<in> set ''./-''
      \<and> list_all isLetter name \<and> map_of months (toLowerCase (take 3 name)) = Some (m - 1)"
  have r: "parseDate host (Some (ds @ [sa] @ ms @ [sb] @ pad 4 (nat y))) = Some (utcMidnight y m d)
      \<and> parseDate_App host (Some (ds @ [sa] @ ms @ [sb] @ pad 4 (nat y)))
          = Inr (Some (utcMidnight y m d))
      \<and> parseDate host (Some (ds @ '' '' @ name @ '' '' @ pad 4 (nat y)))
          = Some (utcMidnight y m d)
      \<and> parseDate_App host (Some (ds @ '' '' @ name @ '' '' @ pad 4 (nat y)))
          = Inr (Some (utcMidnight y m d))
      \<and> (2000 \<le> y \<and> y \<le> 2099 \<longrightarrow>
           parseDate host (Some (ds @ [sa] @ ms @ [sb] @ pad 2 (nat (y - 2000))))
             = Some (utcMidnight y m d)
           \<and> parseDate_App host (Some (ds @ [sa] @ ms @ [sb] @ pad 2 (nat (y - 2000))))
             = Inr (Some (utcMidnight y m d)))
      \<and> utcDate (utcMidnight y m d) = (y, m, d)" if g: ?given
  proof -
    have 1: "validDate y m d" and 2: "100 \<le> y" and 3: "y \<le> 9999"
      and 4: "ds = pad 2 (nat d) \<or> ds = showNat (nat d)"
      and 5: "ms = pad 2 (nat m) \<or> ms = showNat (nat m)"
      and 6: "sa \<in> set ''./-''" and 7: "sb \<in> set ''./-''"
      and 8: "list_all isLetter name"
      and 9: "map_of months (toLowerCase (take 3 name)) = Some (m - 1)"
      using g by blast+
    show ?thesis by (rule parseDate_rendered [OF 1 2 3 4 5 6 7 8 9])
  qed
  have o: "\<forall>s t. s \<noteq> [] \<longrightarrow>
          (tryDMY s = Some t \<longrightarrow> parseDate host (Some s) = Some t)
        \<and> (tryDMY s = None \<and> tryText s = Some t \<longrightarrow> parseDate host (Some s) = Some t)
        \<and> (tryDMY s = None \<and> tryText s = None \<and> tryYMD s = Some t
              \<longrightarrow> parseDate host (Some s) = Some t)
        \<and> (tryDMY s = None \<and> tryText s = None \<and> tryYMD s = None
              \<longrightarrow> parseDate host (Some s) = newDate host s)"
    by (simp add: parseDate_order)
  have p: "\<forall>s t. s \<noteq> [] \<longrightarrow>
          (tryDMY s = Some t \<longrightarrow> parseDate_App host (Some s) = Inr (Some t))
        \<and> (tryDMY s = None \<and> tryText s = Some t
              \<longrightarrow> parseDate_App host (Some s) = Inr (Some t))
        \<and> (tryDMY s = None \<and> tryText s = None
              \<longrightarrow> parseDate_App host (Some s) = Inr (newDate host s))"
    by (simp add: parseDate_order)
  have a: "parseDate host (Some ''2025-01-15'') = Some (utcMidnight 2015 1 25)"
    "parseDate_App host (Some ''2025-01-15'') = Inr (Some (utcMidnight 2015 1 25))"
    by (simp_all add: parseDate_order iso_rendering_shadowed)
  have b: "utcMidnight 2015 1 25 \<noteq> utcMidnight 2025 1 15"
    by (simp add: date_eval)
  have c: "parseDate host (Some ''January 15, 2025'') = host ''January 15, 2025''"
    "parseDate_App host (Some ''January 15, 2025'') = Inr (host ''January 15, 2025'')"
    by (simp_all add: parseDate_order trailing_day_unmatched newDate_def)
  have "parseDate istParser (Some ''January 15, 2025'') = Some 1736879400000"
    by (simp add: parseDate_order trailing_day_unmatched newDate_def istParser_def)
  then have e: "map_option utcDate (parseDate istParser (Some ''January 15, 2025''))
      = Some (2025, 1, 14)"
    by (simp add: evening_utcDate)
  have f: "parseDate host (Some ''5 Mar 2024 2025-02-3'') = Some (utcMidnight 2024 3 5)"
    by (simp add: parseDate_order text_before_ymd)
  have h: "parseDate host (Some ''2025-02-3'') = Some (utcMidnight 2025 2 3)"
    "parseDate_App host (Some ''2025-02-3'') = Inr (host ''2025-02-3'')"
    by (simp_all add: parseDate_order one_digit_day newDate_def)
  show ?thesis
    using r o p a b c e f h iso_rendering_shadowed(2) text_before_ymd(3) by blast
qed

text \<open>
  The renderings \<^verbatim>\<open>15/01/2025\<close>, \<^verbatim>\<open>15 January 2025\<close> and \<^verbatim>\<open>15/01/25\<close> of 15 January 2025.
\<close>

theorem parseDate_formats_witness:
  "parseDate noHost (Some ''15/01/2025'') = Some (utcMidnight 2025 1 15)
   \<and> parseDate_App noHost (Some ''15/01/2025'') = Inr (Some (utcMidnight 2025 1 15))
   \<and> parseDate noHost (Some ''15 January 2025'') = Some (utcMidnight 2025 1 15)
   \<and> parseDate_App noHost (Some ''15 January 2025'') = Inr (Some (utcMidnight 2025 1 15))
   \<and> parseDate noHost (Some ''15/01/25'') = Some (utcMidnight 2025 1 15)
   \<and> utcDate (utcMidnight 2025 1 15) = (2025, 1, 15)"
proof -
  have v: "validDate 2025 1 15" by (simp add: date_eval)
  have d: "''15'' = pad 2 (nat 15) \<or> ''15'' = showNat (nat 15)"
    and m: "''01'' = pad 2 (nat 1) \<or> ''01'' = showNat (nat 1)"
    by (simp_all add: pad_def digitChar_def upt_conv_Cons)
  have y: "pad 4 2025 = ''2025''" "pad 2 25 = ''25''"
    by (simp_all add: pad_def digitChar_def upt_conv_Cons)
  have n: "list_all isLetter ''January''"
    by (simp add: isLetter_def isLowerAZ_def isUpperAZ_def)
  have k: "map_of months (toLowerCase (take 3 ''January'')) = Some (1 - 1)" by code_simp
  have s: "CHR ''/'' \<in> set ''./-''" by simp
  have r: "(100::int) \<le> 2025" "(2025::int) \<le> 9999" by simp_all
  have g: "validDate 2025 1 15 \<and> 100 \<le> (2025::int) \<and> (2025::int) \<le> 9999
      \<and> (''15'' = pad 2 (nat 15) \<or> ''15'' = showNat (nat 15))
      \<and> (''01'' = pad 2 (nat 1) \<or> ''01'' = showNat (nat 1))
      \<and> CHR ''/'' \<in> set ''./-'' \<and> CHR ''/'' \<in> set ''./-''
      \<and> list_all isLetter ''January''
      \<and> map_of months (toLowerCase (take 3 ''January'')) = Some (1 - 1)"
    using v r d m s n k by blast
  have "parseDate noHost (Some (''15'' @ [CHR ''/''] @ ''01'' @ [CHR ''/''] @ pad 4 (nat 2025)))
        = Some (utcMidnight 2025 1 15)
      \<and> parseDate_App noHost (Some (''15'' @ [CHR ''/''] @ ''01'' @ [CHR ''/''] @ pad 4 (nat 2025)))
          = Inr (Some (utcMidnight 2025 1 15))
      \<and> parseDate noHost (Some (''15'' @ '' '' @ ''January'' @ '' '' @ pad 4 (nat 2025)))
          = Some (utcMidnight 2025 1 15)
      \<and> parseDate_App noHost (Some (''15'' @ '' '' @ ''January'' @ '' '' @ pad 4 (nat 2025)))
          = Inr (Some (utcMidnight 2025 1 15))
      \<and> (2000 \<le> (2025::int) \<and> (2025::int) \<le> 2099 \<longrightarrow>
           parseDate noHost
               (Some (''15'' @ [CHR ''/''] @ ''01'' @ [CHR ''/''] @ pad 2 (nat (2025 - 2000))))
             = Some (utcMidnight 2025 1 15)
           \<and> parseDate_App noHost
               (Some (''15'' @ [CHR ''/''] @ ''01'' @ [CHR ''/''] @ pad 2 (nat (2025 - 2000))))
             = Inr (Some (utcMidnight 2025 1 15)))
      \<and> utcDate (utcMidnight 2025 1 15) = (2025, 1, 15)"
    using parseDate_formats [where y = 2025 and m = 1 and d = 15 and ds = "''15''"
        and ms = "''01''" and sa = "CHR ''/''" and sb = "CHR ''/''" and name = "''January''"
        and host = noHost] g
    by blast
  then show ?thesis by (simp add: y)
qed

section \<open>The deadline filter\<close>

subsection \<open>Date-only values and their ISO rendering\<close>

lemma dateOnly_civil:
  assumes "dateOnly T"
  obtains y m d where "utcDate T = (y, m, d)" "validDate y m d" "utcMidnight y m d = T"
    "0 \<le> y" "y \<le> 9999"
proof -
  define D where "D = T div msPerDay"
  have "msPerDay dvd T" using assms by (simp add: dateOnly_def mod_0_imp_dvd)
  then have T: "T = D * msPerDay" by (simp add: D_def)
  have u: "utcDate T = (YearFromDay D, MonthFromDay D + 1, DateFromDay D)"
    by (simp add: utcDate_def D_def Let_def)
  have "utcMidnight (YearFromDay D) (MonthFromDay D + 1) (DateFromDay D) = T"
    using civil_of_day(2) [of D] by (simp add: utcMidnight_def T)
  moreover have "0 \<le> YearFromDay D" "YearFromDay D \<le> 9999"
    using assms u by (simp_all add: dateOnly_def)
  ultimately show ?thesis using that u civil_of_day(1) [of D] by blast
qed

lemma valid_day_range:
  assumes "validDate y m d"
  shows "1 \<le> m" "m \<le> 12" "1 \<le> d" "d \<le> 31"
  using assms month_cases [of m] leapDays_cases [of y]
  by (auto simp: validDate_def daysInMonth_def)

lemma parseIso_rendered:
  assumes "validDate y m d" "0 \<le> y" "y \<le> 9999"
  shows "parseIsoDateOnly (pad 4 (nat y) @ ''-'' @ pad 2 (nat m) @ ''-'' @ pad 2 (nat d))
     = Some (utcMidnight y m d)"
proof -
  note r = valid_day_range [OF assms(1)]
  have dec: "int (decimal (pad 4 (nat y))) = y" "int (decimal (pad 2 (nat m))) = m"
    "int (decimal (pad 2 (nat d))) = d"
    using assms(2,3) r by (simp_all add: decimal_pad)
  show ?thesis
    using assms(1) dec
    by (simp add: parseIsoDateOnly_def nth_append length_pad digits_pad Let_def)
qed

lemma isoDatePart_dateOnly:
  assumes "dateOnly T"
  shows "parseIsoDateOnly (isoDatePart T) = Some T"
proof -
  from dateOnly_civil [OF assms] obtain y m d where
    u: "utcDate T = (y, m, d)" and v: "validDate y m d" and t: "utcMidnight y m d = T"
    and y: "0 \<le> y" "y \<le> 9999" by blast
  have "isoDatePart T = pad 4 (nat y) @ ''-'' @ pad 2 (nat m) @ ''-'' @ pad 2 (nat d)"
    using y by (simp add: isoDatePart_def u)
  then show ?thesis using parseIso_rendered [OF v y] t by simp
qed

lemma isoDatePart_inj:
  assumes "dateOnly t" "dateOnly T"
  shows "(isoDatePart t = isoDatePart T) = (t = T)"
proof
  assume "isoDatePart t = isoDatePart T"
  then have "parseIsoDateOnly (isoDatePart t) = parseIsoDateOnly (isoDatePart T)" by simp
  then have "Some t = Some T"
    unfolding isoDatePart_dateOnly [OF assms(1)] isoDatePart_dateOnly [OF assms(2)] .
  then show "t = T" by simp
next
  assume "t = T"
  then show "isoDatePart t = isoDatePart T" by simp
qed

lemma isoDatePart_nonempty: "isoDatePart T \<noteq> []"
proof -
  obtain y m d where u: "utcDate T = (y, m, d)" by (cases "utcDate T") auto
  have "CHR ''-'' \<in> set (isoDatePart T)"
    unfolding isoDatePart_def u prod.case by (simp only: set_append) simp
  then show ?thesis by auto
qed

lemma dateOnly_utcMidnight:
  assumes "validDate y m d" "0 \<le> y" "y \<le> 9999"
  shows "dateOnly (utcMidnight y m d)"
  unfolding dateOnly_def utcDate_utcMidnight [OF assms(1)]
  using assms(2,3) by (simp add: utcMidnight_def)

lemma isoDatePart_utcMidnight:
  assumes "validDate y m d" "0 \<le> y" "y \<le> 9999"
  shows "isoDatePart (utcMidnight y m d)
    = pad 4 (nat y) @ ''-'' @ pad 2 (nat m) @ ''-'' @ pad 2 (nat d)"
  unfolding isoDatePart_def utcDate_utcMidnight [OF assms(1)]
  using assms(2,3) by simp

subsection \<open>The nearest earlier deadline\<close>

lemma hd_sort_desc:
  assumes "cs \<noteq> []"
  shows "lastDate (hd (sort_key (\<lambda>j. - lastDate j) cs)) = Max (lastDate ` set cs)"
proof -
  define ss where "ss = sort_key (\<lambda>j. - lastDate j) cs"
  have "length ss = length cs" by (simp add: ss_def)
  then obtain x xs where ss: "ss = x # xs" using assms by (cases ss) auto
  have "sorted (map (\<lambda>j. - lastDate j) ss)" unfolding ss_def by (rule sorted_sort_key)
  then have le: "\<forall>y\<in>set xs. lastDate y \<le> lastDate x" by (auto simp: ss)
  have set: "set cs = insert x (set xs)"
    using set_sort [of "\<lambda>j. - lastDate j" cs] by (simp add: ss_def [symmetric] ss)
  have "Max (lastDate ` set cs) = lastDate x"
    by (rule Max_eqI) (use le set in auto)
  then show ?thesis by (simp add: ss_def [symmetric] ss)
qed

lemma filter_sort_desc:
  "filter (\<lambda>j. lastDate j = k) (sort_key (\<lambda>j. - lastDate j) cs) = filter (\<lambda>j. lastDate j = k) cs"
  using sort_key_stable [of "\<lambda>j. - lastDate j" "- k" cs] by simp

text \<open>
  C2, for \<^verbatim>\<open>finalJobs\<close> of App.jsx. The deadlines and the target \<open>T\<close> are date-only values
  (midnight UTC of a day in the years 0 to 9999) and the filter field holds the rendering
  \<^verbatim>\<open>YYYY-MM-DD\<close> of \<open>T\<close>, as the date input delivers it. If some job has the deadline \<open>T\<close>,
  the result is the jobs with the deadline \<open>T\<close>; else, if some job has a deadline not
  after \<open>T\<close>, the result is the jobs whose deadline is the greatest deadline not after
  \<open>T\<close>, all ties kept, in the order they were found; else the result is empty.
\<close>

theorem finalJobs_policy:
  assumes "\<forall>j\<in>set found. dateOnly (lastDate j)" and "dateOnly T"
  shows "finalJobs e found (isoDatePart T) =
     (if \<exists>j\<in>set found. lastDate j = T then filter (\<lambda>j. lastDate j = T) found
      else if \<exists>j\<in>set found. lastDate j \<le> T
        then filter (\<lambda>j. lastDate j = Max (lastDate ` {j \<in> set found. lastDate j \<le> T})) found
      else [])"
proof -
  have ex: "filter (\<lambda>j. isoDatePart (lastDate j) = isoDatePart T) found
      = filter (\<lambda>j. lastDate j = T) found"
    using assms isoDatePart_inj by (intro filter_cong) auto
  have nd: "newDate (dateOfString e) (isoDatePart T) = Some T"
    using isoDatePart_dateOnly [OF assms(2)] by (simp add: newDate_def)
  define cs where "cs = filter (\<lambda>j. lastDate j \<le> T) found"
  define mx where "mx = Max (lastDate ` {j \<in> set found. lastDate j \<le> T})"
  have near: "filter (\<lambda>j. lastDate j = lastDate (hd (sort_key (\<lambda>j. - lastDate j) cs)))
        (sort_key (\<lambda>j. - lastDate j) cs) = filter (\<lambda>j. lastDate j = mx) found"
    if "cs \<noteq> []"
  proof -
    have s: "set cs = {j \<in> set found. lastDate j \<le> T}" by (auto simp: cs_def)
    have h: "lastDate (hd (sort_key (\<lambda>j. - lastDate j) cs)) = mx"
      using hd_sort_desc [OF that] by (simp add: s mx_def)
    have "mx \<in> lastDate ` set cs"
      unfolding mx_def s [symmetric] using that by (intro Max_in) auto
    then have "mx \<le> T" by (auto simp: cs_def)
    then have "filter (\<lambda>j. lastDate j = mx) cs = filter (\<lambda>j. lastDate j = mx) found"
      unfolding cs_def filter_filter by (intro filter_cong) auto
    then show ?thesis unfolding h filter_sort_desc .
  qed
  have c0: "(cs \<noteq> []) = (\<exists>j\<in>set found. lastDate j \<le> T)"
    by (auto simp: cs_def filter_empty_conv)
  have e0: "(filter (\<lambda>j. lastDate j = T) found \<noteq> []) = (\<exists>j\<in>set found. lastDate j = T)"
    by (auto simp: filter_empty_conv)
  show ?thesis
    unfolding finalJobs_def Let_def ex nd option.case cs_def [symmetric] mx_def [symmetric]
    using isoDatePart_nonempty [of T] near c0 e0 by auto
qed

text \<open>
  The scenario of C2 on the deadlines 10, 15 and 20 January 2025: the targets 15 January
  and 17 January select the job of 15 January, the target 5 January selects nothing.
\<close>

theorem finalJobs_policy_witness:
  "finalJobs site jobsJan ''2025-01-15''
     = [\<lparr>title = ''Driver'', link = ''https://example.com/jobs/driver'',
         lastDate = utcMidnight 2025 1 15\<rparr>]
   \<and> finalJobs site jobsJan ''2025-01-17''
     = [\<lparr>title = ''Driver'', link = ''https://example.com/jobs/driver'',
         lastDate = utcMidnight 2025 1 15\<rparr>]
   \<and> finalJobs site jobsJan ''2025-01-05'' = []"
proof -
  have v: "validDate 2025 1 d" if "1 \<le> d" "d \<le> 31" for d
    using that by (simp add: validDate_def daysInMonth_def)
  have p: "pad 4 2025 = ''2025''" "pad 2 (Suc 0) = ''01''" "pad 2 15 = ''15''" "pad 2 17 = ''17''"
    "pad 2 5 = ''05''"
    by (simp_all add: pad_def digitChar_def upt_conv_Cons)
  have i: "isoDatePart (utcMidnight 2025 1 15) = ''2025-01-15''"
    "isoDatePart (utcMidnight 2025 1 17) = ''2025-01-17''"
    "isoDatePart (utcMidnight 2025 1 5) = ''2025-01-05''"
    by (simp_all add: isoDatePart_utcMidnight v p)
  have n: "utcMidnight 2025 1 10 = 1736467200000" "utcMidnight 2025 1 15 = 1736899200000"
    "utcMidnight 2025 1 20 = 1737331200000" "utcMidnight 2025 1 17 = 1737072000000"
    "utcMidnight 2025 1 5 = 1736035200000"
    by (simp_all add: date_eval)
  have d: "\<forall>j\<in>set jobsJan. dateOnly (lastDate j)"
    by (simp add: jobsJan_def dateOnly_utcMidnight v)
  have t: "dateOnly (utcMidnight 2025 1 15)" "dateOnly (utcMidnight 2025 1 17)"
    "dateOnly (utcMidnight 2025 1 5)"
    by (simp_all add: dateOnly_utcMidnight v)
  have a: "finalJobs site jobsJan ''2025-01-15''
     = [\<lparr>title = ''Driver'', link = ''https://example.com/jobs/driver'',
         lastDate = utcMidnight 2025 1 15\<rparr>]"
    using finalJobs_policy [OF d t(1), of site] unfolding i set_filter [symmetric]
    by (simp add: jobsJan_def n)
  have b: "finalJobs site jobsJan ''2025-01-17''
     = [\<lparr>title = ''Driver'', link = ''https://example.com/jobs/driver'',
         lastDate = utcMidnight 2025 1 15\<rparr>]"
    using finalJobs_policy [OF d t(2), of site] unfolding i set_filter [symmetric]
    by (simp add: jobsJan_def n)
  have c: "finalJobs site jobsJan ''2025-01-05'' = []"
    using finalJobs_policy [OF d t(3), of site] unfolding i set_filter [symmetric]
    by (simp add: jobsJan_def n)
  show ?thesis using a b c by simp
qed

lemma evening_day:
  "utcDate 1736879400000 = (2025, 1, 14)"
  "isoDatePart 1736879400000 = ''2025-01-14''"
  "isoDatePart (utcMidnight 2025 1 14) = ''2025-01-14''"
  "\<not> dateOnly 1736879400000"
proof -
  have v: "validDate 2025 1 14" by (simp add: validDate_def daysInMonth_def)
  have p: "pad 4 2025 = ''2025''" "pad 2 (Suc 0) = ''01''" "pad 2 14 = ''14''"
    by (simp_all add: pad_def digitChar_def upt_conv_Cons)
  show u: "utcDate 1736879400000 = (2025, 1, 14)"
    by (rule evening_utcDate)
  show "isoDatePart 1736879400000 = ''2025-01-14''"
    unfolding isoDatePart_def u by (simp add: p)
  show "isoDatePart (utcMidnight 2025 1 14) = ''2025-01-14''"
    by (simp add: isoDatePart_utcMidnight v p)
  show "\<not> dateOnly 1736879400000"
    by (simp add: dateOnly_def msPerDay_def)
qed

text \<open>
  C2 as stated fails twice. \<^verbatim>\<open>filteredJobs\<close> of the reducer-based variant keeps every job
  whose deadline is not after the target: for the target 17 January 2025 it returns the
  jobs of 10 January and of 15 January. And \<^verbatim>\<open>finalJobs\<close> of App.jsx needs deadlines that are
  date-only values: its first step compares the UTC days of the deadlines with the
  target, its second step compares instants. Of two jobs with deadlines on 14 January
  2025, at 18:30 UTC and at midnight UTC, the target 16 January selects the first only,
  although both fall on the nearest earlier day; and the target 14 January selects the
  job of 18:30 UTC, whose deadline is neither equal to nor before the target's instant.
\<close>

theorem finalJobs_counterexample:
  "filteredJobs site (initialState\<lparr>jobs := jobsJan, filterDate := ''2025-01-17''\<rparr>)
     = [\<lparr>title = ''Clerk'', link = ''https://example.com/jobs/clerk'',
         lastDate = utcMidnight 2025 1 10\<rparr>,
        \<lparr>title = ''Driver'', link = ''https://example.com/jobs/driver'',
         lastDate = utcMidnight 2025 1 15\<rparr>]
   \<and> map (\<lambda>j. isoDatePart (lastDate j)) jobsEvening = [''2025-01-14'', ''2025-01-14'']
   \<and> map (\<lambda>j. dateOnly (lastDate j)) jobsEvening = [False, True]
   \<and> finalJobs site jobsEvening ''2025-01-16'' = take 1 jobsEvening
   \<and> finalJobs site (take 1 jobsEvening) ''2025-01-14'' = take 1 jobsEvening
   \<and> utcMidnight 2025 1 14 < lastDate (hd jobsEvening)"
proof -
  have n: "utcMidnight 2025 1 10 = 1736467200000" "utcMidnight 2025 1 15 = 1736899200000"
    "utcMidnight 2025 1 20 = 1737331200000" "utcMidnight 2025 1 17 = 1737072000000"
    "utcMidnight 2025 1 14 = 1736812800000" "utcMidnight 2025 1 16 = 1736985600000"
    by (simp_all add: date_eval)
  have v: "validDate 2025 1 d" if "1 \<le> d" "d \<le> 31" for d
    using that by (simp add: validDate_def daysInMonth_def)
  have p: "pad 4 2025 = ''2025''" "pad 2 (Suc 0) = ''01''" "pad 2 17 = ''17''"
    "pad 2 16 = ''16''"
    by (simp_all add: pad_def digitChar_def upt_conv_Cons)
  have i: "isoDatePart (utcMidnight 2025 1 17) = ''2025-01-17''"
    "isoDatePart (utcMidnight 2025 1 16) = ''2025-01-16''"
    by (simp_all add: isoDatePart_utcMidnight v p)
  have q: "parseIsoDateOnly ''2025-01-17'' = Some (utcMidnight 2025 1 17)"
    "parseIsoDateOnly ''2025-01-16'' = Some (utcMidnight 2025 1 16)"
    using isoDatePart_dateOnly [OF dateOnly_utcMidnight [OF v [of 17]]]
      isoDatePart_dateOnly [OF dateOnly_utcMidnight [OF v [of 16]]]
    by (simp_all add: i)
  have d: "dateOnly (utcMidnight 2025 1 14)"
    by (simp add: dateOnly_utcMidnight v)
  have a: "filteredJobs site (initialState\<lparr>jobs := jobsJan, filterDate := ''2025-01-17''\<rparr>)
     = [\<lparr>title = ''Clerk'', link = ''https://example.com/jobs/clerk'',
         lastDate = utcMidnight 2025 1 10\<rparr>,
        \<lparr>title = ''Driver'', link = ''https://example.com/jobs/driver'',
         lastDate = utcMidnight 2025 1 15\<rparr>]"
    by (simp add: filteredJobs_def newDate_def jobsJan_def q n initialState_def)
  have b: "map (\<lambda>j. isoDatePart (lastDate j)) jobsEvening = [''2025-01-14'', ''2025-01-14'']"
    "map (\<lambda>j. dateOnly (lastDate j)) jobsEvening = [False, True]"
    by (simp_all add: jobsEvening_def evening_day d)
  have g: "isoDatePart 1736812800000 = ''2025-01-14''"
    using evening_day(3) by (simp add: n)
  have c: "finalJobs site jobsEvening ''2025-01-16'' = take 1 jobsEvening"
    by (simp add: finalJobs_def jobsEvening_def evening_day g newDate_def q n)
  have e: "finalJobs site (take 1 jobsEvening) ''2025-01-14'' = take 1 jobsEvening"
    by (simp add: finalJobs_def jobsEvening_def evening_day)
  have f: "utcMidnight 2025 1 14 < lastDate (hd jobsEvening)"
    by (simp add: jobsEvening_def n)
  show ?thesis using a b c e f by simp
qed

section \<open>Link discovery\<close>

lemma forEachLink_invariant:
  assumes "forEachLink f as ls0 = Inr ls" and "P ls0"
    and "\<And>a xs ys. a \<in> set as \<Longrightarrow> P xs \<Longrightarrow> f xs a = Inr ys \<Longrightarrow> P ys"
  shows "P ls"
  using assms
proof (induction as arbitrary: ls0)
  case Nil
  then show ?case by simp
next
  case (Cons a as)
  from Cons.prems(1) obtain ls1 where f: "f ls0 a = Inr ls1" and r: "forEachLink f as ls1 = Inr ls"
    by (auto split: sum.splits)
  have p: "P ls1" using Cons.prems(3) [of a ls0 ls1] Cons.prems(2) f by simp
  show ?case by (rule Cons.IH [OF r p]) (use Cons.prems(3) in auto)
qed

lemma considerLink_cases:
  assumes "considerLink e seed xs a = Inr ys"
  shows "ys = xs \<or>
    (\<exists>href origin. normalizeHref e seed (fst a) = Some href \<and> urlOrigin e seed = Inr origin
       \<and> startsWith href origin
       \<and> mentionsJob (toLowerCase href) (toLowerCase (snd a))
       \<and> ys = setAdd xs href)"
  using assms
  by (auto simp: considerLink_def Let_def split: option.splits sum.splits if_splits)

lemma considerLink_skips:
  "normalizeHref e seed (fst a) = None \<Longrightarrow> considerLink e seed xs a = Inr xs"
  by (simp add: considerLink_def)

lemma discoverLinks_invariant:
  assumes "discoverLinks e mainHtml seed = Inr links"
  shows "distinct links
    \<and> (\<forall>l\<in>set links. \<exists>a\<in>set (anchors e mainHtml). \<exists>origin.
          normalizeHref e seed (fst a) = Some l \<and> urlOrigin e seed = Inr origin
          \<and> startsWith l origin
          \<and> mentionsJob (toLowerCase l) (toLowerCase (snd a)))
    \<and> (\<forall>xs a. normalizeHref e seed (fst a) = None \<longrightarrow> considerLink e seed xs a = Inr xs)"
proof -
  define Q where "Q = (\<lambda>l. \<exists>a\<in>set (anchors e mainHtml). \<exists>origin.
          normalizeHref e seed (fst a) = Some l \<and> urlOrigin e seed = Inr origin
          \<and> startsWith l origin
          \<and> mentionsJob (toLowerCase l) (toLowerCase (snd a)))"
  define P where "P = (\<lambda>xs. distinct xs \<and> (\<forall>l\<in>set xs. Q l))"
  have step: "P ys" if "a \<in> set (anchors e mainHtml)" "P xs" "considerLink e seed xs a = Inr ys"
    for a xs ys
  proof -
    have "ys = xs \<or> (\<exists>href. Q href \<and> ys = setAdd xs href)"
    proof (rule disjE [OF considerLink_cases [OF that(3)]])
      assume "ys = xs"
      then show ?thesis by simp
    next
      assume "\<exists>href origin. normalizeHref e seed (fst a) = Some href \<and> urlOrigin e seed = Inr origin
       \<and> startsWith href origin
       \<and> mentionsJob (toLowerCase href) (toLowerCase (snd a))
       \<and> ys = setAdd xs href"
      then obtain href origin where h: "normalizeHref e seed (fst a) = Some href"
        "urlOrigin e seed = Inr origin" "startsWith href origin"
        "mentionsJob (toLowerCase href) (toLowerCase (snd a))" "ys = setAdd xs href" by blast
      have "Q href" unfolding Q_def using that(1) h(1-4) by blast
      then show ?thesis using h(5) by blast
    qed
    then show ?thesis using that(2) unfolding P_def setAdd_def by (auto split: if_splits)
  qed
  have "P links"
    using assms unfolding discoverLinks_def
    by (rule forEachLink_invariant) (simp add: P_def, rule step)
  then show ?thesis using considerLink_skips unfolding P_def Q_def by blast
qed

lemma site_links:
  "discoverLinks site ''<seed>'' ''https://example.com''
     = Inr [''https://example.com/jobs/clerk'', ''https://example.com/news/42'']"
  "discoverLinks_basic site ''<seed>'' ''https://example.com''
     = Inr [''https://example.com/jobs/clerk'', ''https://example.com/news/42'',
            ''https://example.com/about'']"
  "\<not> mentionsJob ''https://example.com/about'' ''about us''"
  by code_simp+

lemma prefixSite_links:
  "discoverLinks prefixSite ''<seed>'' ''https://example.com''
     = Inr [''https://example.com.evil.net/jobs/1'']"
  "urlOrigin prefixSite ''https://example.com.evil.net/jobs/1''
     = Inr ''https://example.com.evil.net''"
  "urlOrigin prefixSite ''https://example.com'' = Inr ''https://example.com''"
  "discoverLinks_basic prefixSite ''<seed>'' ''https://example.com''
     = Inr [''https://example.com.evil.net/jobs/1'']"
  by code_simp+

text \<open>
  C7. What holds for the link discovery of App.jsx and of the reducer-based variant: when
  the loop over the anchors ends without an exception, the links it returns are pairwise
  distinct, and each of them is the normalized href of an anchor of the seed page and has
  one of the keywords job, career, vacancy, hiring, position in its lower-cased URL or in
  its lower-cased anchor text; an anchor whose href does not normalize leaves the
  collected links as they are and does not end the loop.

  What fails: the links need not have the origin of the seed. The test
  \<^verbatim>\<open>href.startsWith(new URL(correctedUrl).origin)\<close> compares strings, and all it ensures
  is that a returned link starts with the origin of the seed as a string. For the seed
  \<^verbatim>\<open>https://example.com\<close> the link \<^verbatim>\<open>https://example.com.evil.net/jobs/1\<close>, whose origin is
  \<^verbatim>\<open>https://example.com.evil.net\<close>, is returned. The earliest variant has the same test and
  no keyword test: on the seed page of the example site it also returns the link to the
  page about the site, which has no keyword in its URL or text.
\<close>

theorem discoverLinks_sound:
  "(discoverLinks e mainHtml seed = Inr links
      \<longrightarrow> distinct links
        \<and> (\<forall>l\<in>set links. \<exists>a\<in>set (anchors e mainHtml). \<exists>origin.
              normalizeHref e seed (fst a) = Some l \<and> urlOrigin e seed = Inr origin
              \<and> startsWith l origin
              \<and> mentionsJob (toLowerCase l) (toLowerCase (snd a))))
   \<and> (\<forall>xs a. normalizeHref e seed (fst a) = None \<longrightarrow> considerLink e seed xs a = Inr xs)
   \<and> discoverLinks prefixSite ''<seed>'' ''https://example.com''
       = Inr [''https://example.com.evil.net/jobs/1'']
   \<and> urlOrigin prefixSite ''https://example.com.evil.net/jobs/1''
       = Inr ''https://example.com.evil.net''
   \<and> urlOrigin prefixSite ''https://example.com'' = Inr ''https://example.com''
   \<and> discoverLinks_basic prefixSite ''<seed>'' ''https://example.com''
       = Inr [''https://example.com.evil.net/jobs/1'']
   \<and> discoverLinks_basic site ''<seed>'' ''https://example.com''
       = Inr [''https://example.com/jobs/clerk'', ''https://example.com/news/42'',
              ''https://example.com/about'']
   \<and> \<not> mentionsJob ''https://example.com/about'' ''about us''"
proof -
  have "distinct links
        \<and> (\<forall>l\<in>set links. \<exists>a\<in>set (anchors e mainHtml). \<exists>origin.
              normalizeHref e seed (fst a) = Some l \<and> urlOrigin e seed = Inr origin
              \<and> startsWith l origin
              \<and> mentionsJob (toLowerCase l) (toLowerCase (snd a)))"
    if "discoverLinks e mainHtml seed = Inr links"
    using discoverLinks_invariant [OF that] by blast
  then show ?thesis
    using considerLink_skips prefixSite_links site_links(2,3) by blast
qed

text \<open>
  The scenario of C7: a seed page with three links to its own site, two of them job-like,
  and one link to another site yields the two job-like links.
\<close>

theorem discoverLinks_sound_witness:
  "discoverLinks site ''<seed>'' ''https://example.com''
     = Inr [''https://example.com/jobs/clerk'', ''https://example.com/news/42'']
   \<and> distinct [''https://example.com/jobs/clerk'', ''https://example.com/news/42'']
   \<and> (\<exists>a\<in>set (anchors site ''<seed>'').
         normalizeHref site ''https://example.com'' (fst a) = Some ''https://example.com/news/42''
         \<and> mentionsJob ''https://example.com/news/42'' (toLowerCase (snd a)))"
proof -
  have l: "toLowerCase ''https://example.com/news/42'' = ''https://example.com/news/42''"
    by code_simp
  show ?thesis
    using discoverLinks_sound [of site "''<seed>''" "''https://example.com''"
        "[''https://example.com/jobs/clerk'', ''https://example.com/news/42'']"]
      site_links(1) l
    by auto
qed

section \<open>The relevance gate\<close>

text \<open>
  C3, for the extraction of App.jsx and of the reducer-based variant. A document in whose
  lower-cased body text fewer than two of the job keywords occur yields no deadline,
  whatever else it contains. A document with a match of the deadline pattern, a non-empty
  payload, at least two keywords and a payload that parses to a date not before today
  yields that date.
\<close>

theorem relevance_gate:
  "(score body < 2 \<longrightarrow> extractDeadline parse today0 body = Inr None)
   \<and> (rsearch True deadlineRx body = Some m \<and> cap m 1 = Some payload \<and> payload \<noteq> []
        \<and> 2 \<le> score body \<and> parse (Some (trim payload)) = Inr (Some t) \<and> today0 \<le> t
      \<longrightarrow> extractDeadline parse today0 body = Inr (Some t))"
  by (auto simp: extractDeadline_def split: option.splits sum.splits)

text \<open>
  A job posting with two keywords and a deadline in 2030 yields the deadline; a page
  that mentions a deadline and has no keyword yields none.
\<close>

theorem relevance_gate_witness:
  "score ''Qualification: degree. Salary: 100. Last date: 15/01/2030'' = 2
   \<and> extractDeadline (parseDate_App noHost) (today site)
        ''Qualification: degree. Salary: 100. Last date: 15/01/2030''
       = Inr (Some (utcMidnight 2030 1 15))
   \<and> score ''Office move deadline: 20/02/2030'' = 0
   \<and> extractDeadline (parseDate_App noHost) (today site) ''Office move deadline: 20/02/2030''
       = Inr None"
proof -
  define m where
    "m = the (rsearch True deadlineRx ''Qualification: degree. Salary: 100. Last date: 15/01/2030'')"
  have s: "score ''Qualification: degree. Salary: 100. Last date: 15/01/2030'' = 2"
    "score ''Office move deadline: 20/02/2030'' = 0"
    by code_simp+
  have r: "rsearch True deadlineRx ''Qualification: degree. Salary: 100. Last date: 15/01/2030''
      = Some m"
    unfolding m_def by code_simp
  have c: "cap m 1 = Some ''15/01/2030''"
    unfolding m_def by code_simp
  have p: "parseDate_App noHost (Some (trim ''15/01/2030'')) = Inr (Some (utcMidnight 2030 1 15))"
    by code_simp
  have t: "today site \<le> utcMidnight 2030 1 15"
    by code_simp
  have a: "extractDeadline (parseDate_App noHost) (today site)
        ''Qualification: degree. Salary: 100. Last date: 15/01/2030''
       = Inr (Some (utcMidnight 2030 1 15))"
    using relevance_gate [where body = "''Qualification: degree. Salary: 100. Last date: 15/01/2030''"
        and parse = "parseDate_App noHost" and ?today0.0 = "today site" and m = m
        and payload = "''15/01/2030''" and t = "utcMidnight 2030 1 15"] r c s(1) p t
    by simp
  have b: "extractDeadline (parseDate_App noHost) (today site) ''Office move deadline: 20/02/2030''
       = Inr None"
    using relevance_gate [where body = "''Office move deadline: 20/02/2030''"
        and parse = "parseDate_App noHost" and ?today0.0 = "today site"] s(2)
    by simp
  show ?thesis using a b s by simp
qed

text \<open>
  C3 does not hold for the earliest variant, which has no relevance score: from the page
  with no keyword it extracts the deadline 20 February 2030.
\<close>

theorem relevance_gate_counterexample:
  "score ''Office move deadline: 20/02/2030'' = 0
   \<and> extractDeadline_basic noHost (today site) ''Office move deadline: 20/02/2030''
       = Some (utcMidnight 2030 2 20)"
  by code_simp

section \<open>The jobs found by one crawl\<close>

lemma extractDeadline_not_past:
  "extractDeadline parse today0 body = Inr (Some d) \<Longrightarrow> today0 \<le> d"
  by (auto simp: extractDeadline_def split: option.splits sum.splits if_splits)

lemma extractDeadline_basic_not_past:
  "extractDeadline_basic host today0 body = Some d \<Longrightarrow> today0 \<le> d"
  by (auto simp: extractDeadline_basic_def split: option.splits if_splits)

lemma pushJob_invariant:
  assumes "distinct (map link found)" "\<forall>j\<in>set found. t \<le> lastDate j" "t \<le> lastDate j"
  shows "distinct (map link (pushJob found j))" "\<forall>k\<in>set (pushJob found j). t \<le> lastDate k"
  using assms by (auto simp: pushJob_def list_ex_iff)

lemma collectJobs_invariant:
  assumes "collectJobs titleOf parse e rs found = Inr js"
    and "distinct (map link found)" "\<forall>j\<in>set found. today e \<le> lastDate j"
  shows "distinct (map link js) \<and> (\<forall>j\<in>set js. today e \<le> lastDate j)"
  using assms
proof (induction rs arbitrary: found)
  case Nil
  then show ?case by simp
next
  case (Cons r rs)
  show ?case
  proof (cases "extractDeadline parse (today e) (bodyText e (snd r))")
    case (Inl err)
    then show ?thesis using Cons.prems(1) by simp
  next
    case (Inr x)
    show ?thesis
    proof (cases x)
      case None
      then show ?thesis using Cons Inr by simp
    next
      case (Some d)
      define j where "j = \<lparr>title = titleOf e (snd r), link = fst r, lastDate = d\<rparr>"
      have "today e \<le> lastDate j"
        using extractDeadline_not_past [of parse "today e" "bodyText e (snd r)" d] Inr Some
        by (simp add: j_def)
      note p = pushJob_invariant [OF Cons.prems(2,3) this]
      have "collectJobs titleOf parse e rs (pushJob found j) = Inr js"
        using Cons.prems(1) Inr Some by (simp add: j_def)
      then show ?thesis by (rule Cons.IH) (rule p)+
    qed
  qed
qed

lemma collectJobs_basic_invariant:
  assumes "distinct (map link found)" "\<forall>j\<in>set found. today e \<le> lastDate j"
  shows "distinct (map link (collectJobs_basic e rs found))
    \<and> (\<forall>j\<in>set (collectJobs_basic e rs found). today e \<le> lastDate j)"
  using assms
proof (induction rs arbitrary: found)
  case Nil
  then show ?case by simp
next
  case (Cons r rs)
  show ?case
  proof (cases "extractDeadline_basic (dateOfString e) (today e) (bodyText e (snd r))")
    case None
    then show ?thesis using Cons by simp
  next
    case (Some d)
    define j where "j = \<lparr>title = title_basic e (snd r), link = fst r, lastDate = d\<rparr>"
    have "today e \<le> lastDate j"
      using extractDeadline_basic_not_past [OF Some] by (simp add: j_def)
    note p = pushJob_invariant [OF Cons.prems(1,2) this]
    have "collectJobs_basic e (r # rs) found = collectJobs_basic e rs (pushJob found j)"
      using Some by (simp add: j_def)
    then show ?thesis using Cons.IH [OF p] by simp
  qed
qed

lemma sorted_jobs_invariant:
  assumes "distinct (map link js)" "\<forall>j\<in>set js. t \<le> lastDate j"
  shows "distinct (map link (sort_key lastDate js))" "\<forall>j\<in>set (sort_key lastDate js). t \<le> lastDate j"
  using assms by (simp_all add: distinct_map)

lemma handleFetchJobs_jobs:
  assumes "url st \<noteq> []"
  shows "jobs (handleFetchJobs e st) =
     (case findLinks e (correctUrl (url st)) of
        Inl err \<Rightarrow> []
      | Inr links \<Rightarrow> (case foundJobs e links of Inl err \<Rightarrow> [] | Inr js \<Rightarrow> sort_key lastDate js))"
  using assms
  by (simp add: handleFetchJobs_def scanActions_def errorAction_def split: sum.splits)

text \<open>
  C5, as the code has it. In each of the three variants the jobs found by one crawl, and
  the jobs of the reducer's state after handleFetchJobs, have pairwise distinct links,
  and no deadline among them is before \<open>today\<close>, which is the start of the current day in
  the host's time zone (\<^verbatim>\<open>setHours(0, 0, 0, 0)\<close> on the time of the extraction).
\<close>

theorem found_jobs_invariant:
  "(foundJobs_App e links = Inr js
      \<longrightarrow> distinct (map link js) \<and> (\<forall>j\<in>set js. today e \<le> lastDate j))
   \<and> (foundJobs e links = Inr js
      \<longrightarrow> distinct (map link js) \<and> (\<forall>j\<in>set js. today e \<le> lastDate j))
   \<and> distinct (map link (foundJobs_basic e links))
   \<and> (\<forall>j\<in>set (foundJobs_basic e links). today e \<le> lastDate j)
   \<and> (url st \<noteq> []
      \<longrightarrow> distinct (map link (jobs (handleFetchJobs e st)))
        \<and> (\<forall>j\<in>set (jobs (handleFetchJobs e st)). today e \<le> lastDate j))"
proof -
  have a: "distinct (map link js) \<and> (\<forall>j\<in>set js. today e \<le> lastDate j)"
    if "foundJobs_App e links = Inr js" for links js
    using that unfolding foundJobs_App_def by (rule collectJobs_invariant) simp_all
  have b: "distinct (map link js) \<and> (\<forall>j\<in>set js. today e \<le> lastDate j)"
    if "foundJobs e links = Inr js" for links js
    using that unfolding foundJobs_def by (rule collectJobs_invariant) simp_all
  have c: "distinct (map link (foundJobs_basic e links))
    \<and> (\<forall>j\<in>set (foundJobs_basic e links). today e \<le> lastDate j)"
    unfolding foundJobs_basic_def by (rule collectJobs_basic_invariant) simp_all
  have d: "distinct (map link (jobs (handleFetchJobs e st)))
        \<and> (\<forall>j\<in>set (jobs (handleFetchJobs e st)). today e \<le> lastDate j)" if "url st \<noteq> []"
  proof (cases "findLinks e (correctUrl (url st))")
    case (Inl err)
    then show ?thesis unfolding handleFetchJobs_jobs [OF that] by simp
  next
    case l: (Inr ls)
    show ?thesis
    proof (cases "foundJobs e ls")
      case (Inl err)
      then show ?thesis unfolding handleFetchJobs_jobs [OF that] using l by simp
    next
      case (Inr found)
      have j: "jobs (handleFetchJobs e st) = sort_key lastDate found"
        unfolding handleFetchJobs_jobs [OF that] using l Inr by simp
      from b [OF Inr] show ?thesis
        unfolding j using sorted_jobs_invariant [of found "today e"] by blast
    qed
  qed
  show ?thesis using a b c d by blast
qed

text \<open>
  On the example site the crawl finds one job, with a deadline after today; the host is
  in the UTC time zone, where today is midnight UTC.
\<close>

theorem found_jobs_invariant_witness:
  "foundJobs_App site [''https://example.com/jobs/clerk'', ''https://example.com/news/42'']
     = Inr [\<lparr>title = ''Engineers wanted at Example'', link = ''https://example.com/news/42'',
             lastDate = utcMidnight 2030 1 15\<rparr>]
   \<and> today site \<le> utcMidnight 2030 1 15
   \<and> today site = utcMidnight 2025 1 15"
proof -
  have f: "foundJobs_App site [''https://example.com/jobs/clerk'', ''https://example.com/news/42'']
     = Inr [\<lparr>title = ''Engineers wanted at Example'', link = ''https://example.com/news/42'',
             lastDate = utcMidnight 2030 1 15\<rparr>]"
    by code_simp
  have t: "today site = utcMidnight 2025 1 15"
    by code_simp
  show ?thesis
    using found_jobs_invariant [of site
        "[''https://example.com/jobs/clerk'', ''https://example.com/news/42'']"
        "[\<lparr>title = ''Engineers wanted at Example'', link = ''https://example.com/news/42'',
             lastDate = utcMidnight 2030 1 15\<rparr>]" initialState] f t
    by simp
qed

text \<open>
  C5 as stated, with today as midnight UTC, fails on a host east of Greenwich. At
  2025-01-15T04:30:00Z on a host in the time zone UTC+05:30, today is 2025-01-14T18:30:00Z.
  A deadline that the host's parser reads as the start of the local 15 January is the
  same instant, so the job is kept, although its deadline is before midnight UTC of the
  day of the crawl.
\<close>

theorem found_jobs_invariant_counterexample:
  "crawl_App istSite ''example.com''
     = Inr [\<lparr>title = ''Clerk wanted at Example'', link = ''https://example.com/jobs/clerk'',
             lastDate = 1736879400000\<rparr>]
   \<and> clock istSite = 1736915400000
   \<and> utcMidnight 2025 1 15 \<le> clock istSite
   \<and> clock istSite < utcMidnight 2025 1 16
   \<and> 1736879400000 < utcMidnight 2025 1 15
   \<and> today istSite = 1736879400000"
  by code_simp

section \<open>A scan that finds no job\<close>

text \<open>
  C8, as the code has it. In the reducer-based variant, a scan whose seed fetch and link
  discovery succeed and which finds no job ends with no jobs, an empty error, no status
  and the loading flag off, while a scan that fails in the first step ends with a
  non-empty error. In the earliest variant a scan that finds no job ends with the error
  field set to a fixed message, which differs from the error of every failed scan: that
  one starts with \<^verbatim>\<open>An error occurred: \<close>.
\<close>

theorem empty_scan_outcomes:
  "(url st \<noteq> [] \<and> findLinks e (correctUrl (url st)) = Inr links \<and> foundJobs e links = Inr []
      \<longrightarrow> jobs (handleFetchJobs e st) = [] \<and> error (handleFetchJobs e st) = []
        \<and> isLoading (handleFetchJobs e st) = False \<and> status (handleFetchJobs e st) = [])
   \<and> (url st \<noteq> [] \<and> findLinks e (correctUrl (url st)) = Inl msg
      \<longrightarrow> jobs (handleFetchJobs e st) = [] \<and> error (handleFetchJobs e st) \<noteq> []
        \<and> isLoading (handleFetchJobs e st) = False)
   \<and> (appUrl a \<noteq> [] \<and> crawl_basic e (appUrl a) = Inr []
      \<longrightarrow> appJobs (handleFetchJobs_basic e a) = []
        \<and> appError (handleFetchJobs_basic e a)
            = ''Scan complete. No jobs with future deadlines were found.''
        \<and> appIsLoading (handleFetchJobs_basic e a) = False)
   \<and> (appUrl a \<noteq> [] \<and> crawl_basic e (appUrl a) = Inl msg
      \<longrightarrow> appJobs (handleFetchJobs_basic e a) = []
        \<and> appError (handleFetchJobs_basic e a) = ''An error occurred: '' @ msg
        \<and> appError (handleFetchJobs_basic e a)
            \<noteq> ''Scan complete. No jobs with future deadlines were found.'')"
  by (auto simp: handleFetchJobs_def scanActions_def errorAction_def handleFetchJobs_basic_def
      Let_def)

text \<open>
  On the site where no page states a deadline the reducer-based variant ends without an
  error; on a seed that cannot be fetched it ends with the message of the failure.
\<close>

theorem empty_scan_outcomes_witness:
  "jobs (handleFetchJobs quietSite (initialState\<lparr>url := ''example.com''\<rparr>)) = []
   \<and> error (handleFetchJobs quietSite (initialState\<lparr>url := ''example.com''\<rparr>)) = []
   \<and> \<not> isLoading (handleFetchJobs quietSite (initialState\<lparr>url := ''example.com''\<rparr>))
   \<and> error (handleFetchJobs quietSite (initialState\<lparr>url := ''example.org''\<rparr>))
       = ''Failed to fetch''"
proof -
  have l: "findLinks quietSite (correctUrl ''example.com'')
      = Inr [''https://example.com/jobs/clerk'', ''https://example.com/news/42'']"
    by code_simp
  have f: "foundJobs quietSite [''https://example.com/jobs/clerk'', ''https://example.com/news/42'']
      = Inr []"
    by code_simp
  have a: "jobs (handleFetchJobs quietSite (initialState\<lparr>url := ''example.com''\<rparr>)) = []
   \<and> error (handleFetchJobs quietSite (initialState\<lparr>url := ''example.com''\<rparr>)) = []
   \<and> \<not> isLoading (handleFetchJobs quietSite (initialState\<lparr>url := ''example.com''\<rparr>))"
    using empty_scan_outcomes [of "initialState\<lparr>url := ''example.com''\<rparr>" quietSite
        "[''https://example.com/jobs/clerk'', ''https://example.com/news/42'']"] l f
    by simp
  have "error (handleFetchJobs quietSite (initialState\<lparr>url := ''example.org''\<rparr>))
       = ''Failed to fetch''"
    by code_simp
  then show ?thesis using a by simp
qed

text \<open>
  C8 as stated fails for the earliest variant: the scan of the same site succeeds with
  no job, and the error field, which the page shows as an alert, is set.
\<close>

theorem empty_scan_outcomes_counterexample:
  "crawl_basic quietSite ''https://example.com'' = Inr []
   \<and> appError (handleFetchJobs_basic quietSite (initialApp\<lparr>appUrl := ''https://example.com''\<rparr>))
       = ''Scan complete. No jobs with future deadlines were found.''
   \<and> appJobs (handleFetchJobs_basic quietSite (initialApp\<lparr>appUrl := ''https://example.com''\<rparr>))
       = []"
  by code_simp

section \<open>Failed fetches and the links of the jobs\<close>

lemma validResults_fetchAll:
  "(l, html) \<in> set (validResults (fetchAll e links))
    \<longleftrightarrow> l \<in> set links \<and> fetchHtml e l = Inr (Some html)"
  by (induction links) (auto simp: validResults_def fetchAll_def split: sum.splits option.splits)

lemma extractDeadline_returns:
  assumes "\<And>s. \<exists>r. parse s = Inr r"
  shows "\<exists>r. extractDeadline parse t body = Inr r"
proof -
  have "\<exists>r. (case parse s of Inl err \<Rightarrow> Inl err | Inr None \<Rightarrow> Inr None
            | Inr (Some d) \<Rightarrow> if t \<le> d then Inr (Some d) else Inr None) = Inr r" for s
    using assms [of s] by (auto split: option.splits)
  then show ?thesis
    unfolding extractDeadline_def by (simp split: option.splits)
qed

lemma collectJobs_returns:
  assumes "\<And>s. \<exists>r. parse s = Inr r"
  shows "\<exists>js. collectJobs titleOf parse e rs found = Inr js"
proof (induction rs arbitrary: found)
  case Nil
  then show ?case by simp
next
  case (Cons r rs)
  have "\<exists>x. extractDeadline parse (today e) (bodyText e (snd r)) = Inr x"
    by (rule extractDeadline_returns) (rule assms)
  then obtain x where "extractDeadline parse (today e) (bodyText e (snd r)) = Inr x"
    by blast
  then show ?case using Cons.IH by (cases x) simp_all
qed

lemma collectJobs_invariant_gen:
  assumes "collectJobs titleOf parse e rs found = Inr js"
    and "\<forall>j\<in>set found. P j"
    and "\<And>r d. r \<in> set rs \<Longrightarrow> extractDeadline parse (today e) (bodyText e (snd r)) = Inr (Some d)
          \<Longrightarrow> P \<lparr>title = titleOf e (snd r), link = fst r, lastDate = d\<rparr>"
  shows "\<forall>j\<in>set js. P j"
  using assms
proof (induction rs arbitrary: found)
  case Nil
  then show ?case by simp
next
  case (Cons r rs)
  have step: "\<And>r' d. r' \<in> set rs
      \<Longrightarrow> extractDeadline parse (today e) (bodyText e (snd r')) = Inr (Some d)
      \<Longrightarrow> P \<lparr>title = titleOf e (snd r'), link = fst r', lastDate = d\<rparr>"
    using Cons.prems(3) by simp
  show ?case
  proof (cases "extractDeadline parse (today e) (bodyText e (snd r))")
    case (Inl err)
    then show ?thesis using Cons.prems(1) by simp
  next
    case (Inr x)
    show ?thesis
    proof (cases x)
      case None
      then have "collectJobs titleOf parse e rs found = Inr js"
        using Cons.prems(1) Inr by simp
      then show ?thesis using Cons.prems(2) step by (rule Cons.IH)
    next
      case (Some d)
      define j where "j = \<lparr>title = titleOf e (snd r), link = fst r, lastDate = d\<rparr>"
      have "P j"
        unfolding j_def using Cons.prems(3) [of r d] Inr Some by simp
      then have p: "\<forall>k\<in>set (pushJob found j). P k"
        using Cons.prems(2) by (simp add: pushJob_def)
      have "collectJobs titleOf parse e rs (pushJob found j) = Inr js"
        using Cons.prems(1) Inr Some by (simp add: j_def)
      then show ?thesis using p step by (rule Cons.IH)
    qed
  qed
qed

lemma pushJob_links: "link ` set (pushJob found j) = insert (link j) (link ` set found)"
proof (cases "list_ex (\<lambda>k. link k = link j) found")
  case True
  then obtain k where k: "k \<in> set found" "link j = link k"
    unfolding list_ex_iff by fastforce
  have "link j \<in> link ` set found"
    using k(2) k(1) by (rule image_eqI)
  then show ?thesis using True by (auto simp: pushJob_def)
next
  case False
  then show ?thesis by (simp add: pushJob_def)
qed

lemma collectJobs_links:
  assumes "collectJobs titleOf parse e rs found = Inr js"
  shows "link ` set found \<subseteq> link ` set js
    \<and> (\<forall>r\<in>set rs. \<forall>d. extractDeadline parse (today e) (bodyText e (snd r)) = Inr (Some d)
          \<longrightarrow> fst r \<in> link ` set js)"
  using assms
proof (induction rs arbitrary: found)
  case Nil
  then show ?case by simp
next
  case (Cons r rs)
  show ?case
  proof (cases "extractDeadline parse (today e) (bodyText e (snd r))")
    case (Inl err)
    then show ?thesis using Cons.prems by simp
  next
    case (Inr x)
    show ?thesis
    proof (cases x)
      case None
      then have "collectJobs titleOf parse e rs found = Inr js"
        using Cons.prems Inr by simp
      from Cons.IH [OF this] show ?thesis using Inr None by simp
    next
      case (Some d)
      define j where "j = \<lparr>title = titleOf e (snd r), link = fst r, lastDate = d\<rparr>"
      have "collectJobs titleOf parse e rs (pushJob found j) = Inr js"
        using Cons.prems Inr Some by (simp add: j_def)
      from Cons.IH [OF this] have
        a: "link ` set (pushJob found j) \<subseteq> link ` set js"
        and b: "\<forall>r\<in>set rs. \<forall>d. extractDeadline parse (today e) (bodyText e (snd r)) = Inr (Some d)
          \<longrightarrow> fst r \<in> link ` set js"
        by blast+
      have "fst r \<in> link ` set js" "link ` set found \<subseteq> link ` set js"
        using a unfolding pushJob_links by (simp_all add: j_def)
      then show ?thesis using b by simp
    qed
  qed
qed

text \<open>
  C4. In App.jsx the extraction never aborts, whichever fetches fail: it returns a list of
  jobs, each job has the link of a fetched document from which its title and its deadline
  were extracted, and every link whose document was fetched and yields a deadline is the
  link of a returned job. The earliest variant pairs the \<open>k\<close>-th fetched page with the
  \<open>k\<close>-th link: on the example site, where the first of three links fails to fetch, the
  job extracted from the page of the second link is returned with the first link, whose
  fetch failed, and the job of the third page with the second link.
\<close>

theorem partial_failure:
  "(\<exists>js. foundJobs_App e links = Inr js
      \<and> (\<forall>j\<in>set js. \<exists>html. link j \<in> set links \<and> fetchHtml e (link j) = Inr (Some html)
            \<and> title j = findTitle_App e html
            \<and> extractDeadline (parseDate_App (dateOfString e)) (today e) (bodyText e html)
                = Inr (Some (lastDate j)))
      \<and> (\<forall>l\<in>set links. \<forall>html d. fetchHtml e l = Inr (Some html)
            \<and> extractDeadline (parseDate_App (dateOfString e)) (today e) (bodyText e html)
                = Inr (Some d)
            \<longrightarrow> (\<exists>j\<in>set js. link j = l)))
   \<and> crawl_basic site ''https://example.com''
       = Inr [\<lparr>title = ''Engineers wanted at Example'', link = ''https://example.com/jobs/clerk'',
               lastDate = utcMidnight 2030 1 15\<rparr>,
              \<lparr>title = ''About Example'', link = ''https://example.com/news/42'',
               lastDate = utcMidnight 2030 2 20\<rparr>]
   \<and> fetchHtml site ''https://example.com/jobs/clerk''
       = Inl ''Failed to fetch https://example.com/jobs/clerk''
   \<and> fetchHtml site ''https://example.com/news/42'' = Inr (Some ''<engineer>'')
   \<and> title_basic site ''<engineer>'' = ''Engineers wanted at Example''"
proof -
  let ?parse = "parseDate_App (dateOfString e)"
  let ?rs = "validResults (fetchAll e links)"
  obtain js where js: "collectJobs findTitle_App ?parse e ?rs [] = Inr js"
    using collectJobs_returns [of ?parse findTitle_App e ?rs "[]"] parseDate_App_returns
    by blast
  have a: "\<forall>j\<in>set js. \<exists>html. link j \<in> set links \<and> fetchHtml e (link j) = Inr (Some html)
            \<and> title j = findTitle_App e html
            \<and> extractDeadline ?parse (today e) (bodyText e html) = Inr (Some (lastDate j))"
  proof (rule collectJobs_invariant_gen [OF js])
    show "\<forall>j\<in>set []. \<exists>html. link j \<in> set links \<and> fetchHtml e (link j) = Inr (Some html)
            \<and> title j = findTitle_App e html
            \<and> extractDeadline ?parse (today e) (bodyText e html) = Inr (Some (lastDate j))"
      by simp
  next
    fix r d
    assume r: "r \<in> set ?rs"
      and d: "extractDeadline ?parse (today e) (bodyText e (snd r)) = Inr (Some d)"
    have "fst r \<in> set links \<and> fetchHtml e (fst r) = Inr (Some (snd r))"
      using r validResults_fetchAll [of "fst r" "snd r" e links] by simp
    then show "\<exists>html. link \<lparr>title = findTitle_App e (snd r), link = fst r, lastDate = d\<rparr> \<in> set links
        \<and> fetchHtml e (link \<lparr>title = findTitle_App e (snd r), link = fst r, lastDate = d\<rparr>)
            = Inr (Some html)
        \<and> title \<lparr>title = findTitle_App e (snd r), link = fst r, lastDate = d\<rparr>
            = findTitle_App e html
        \<and> extractDeadline ?parse (today e) (bodyText e html)
            = Inr (Some (lastDate \<lparr>title = findTitle_App e (snd r), link = fst r, lastDate = d\<rparr>))"
      using d by simp
  qed
  have b: "\<exists>j\<in>set js. link j = l"
    if "l \<in> set links" "fetchHtml e l = Inr (Some html)"
      "extractDeadline ?parse (today e) (bodyText e html) = Inr (Some d)" for l html d
  proof -
    have "(l, html) \<in> set ?rs"
      using that(1,2) by (simp add: validResults_fetchAll)
    then have "l \<in> link ` set js"
      using collectJobs_links [OF js] that(3) by force
    then show ?thesis by auto
  qed
  have c: "crawl_basic site ''https://example.com''
       = Inr [\<lparr>title = ''Engineers wanted at Example'', link = ''https://example.com/jobs/clerk'',
               lastDate = utcMidnight 2030 1 15\<rparr>,
              \<lparr>title = ''About Example'', link = ''https://example.com/news/42'',
               lastDate = utcMidnight 2030 2 20\<rparr>]"
    by code_simp
  have d: "fetchHtml site ''https://example.com/jobs/clerk''
       = Inl ''Failed to fetch https://example.com/jobs/clerk''"
    "fetchHtml site ''https://example.com/news/42'' = Inr (Some ''<engineer>'')"
    "title_basic site ''<engineer>'' = ''Engineers wanted at Example''"
    by code_simp+
  have "\<exists>js. foundJobs_App e links = Inr js
      \<and> (\<forall>j\<in>set js. \<exists>html. link j \<in> set links \<and> fetchHtml e (link j) = Inr (Some html)
            \<and> title j = findTitle_App e html
            \<and> extractDeadline ?parse (today e) (bodyText e html) = Inr (Some (lastDate j)))
      \<and> (\<forall>l\<in>set links. \<forall>html d. fetchHtml e l = Inr (Some html)
            \<and> extractDeadline ?parse (today e) (bodyText e html) = Inr (Some d)
            \<longrightarrow> (\<exists>j\<in>set js. link j = l))"
    unfolding foundJobs_App_def using js a b by blast
  then show ?thesis using c d by simp
qed

text \<open>
  On the same site App.jsx returns the job of the second link with that link.
\<close>

theorem partial_failure_witness:
  "foundJobs_App site [''https://example.com/jobs/clerk'', ''https://example.com/news/42'']
     = Inr [\<lparr>title = ''Engineers wanted at Example'', link = ''https://example.com/news/42'',
             lastDate = utcMidnight 2030 1 15\<rparr>]
   \<and> fetchHtml site ''https://example.com/news/42'' = Inr (Some ''<engineer>'')
   \<and> findTitle_App site ''<engineer>'' = ''Engineers wanted at Example''
   \<and> (\<exists>html. fetchHtml site ''https://example.com/news/42'' = Inr (Some html)
         \<and> extractDeadline (parseDate_App (dateOfString site)) (today site) (bodyText site html)
             = Inr (Some (utcMidnight 2030 1 15)))"
proof -
  have f: "foundJobs_App site [''https://example.com/jobs/clerk'', ''https://example.com/news/42'']
     = Inr [\<lparr>title = ''Engineers wanted at Example'', link = ''https://example.com/news/42'',
             lastDate = utcMidnight 2030 1 15\<rparr>]"
    by code_simp
  have g: "fetchHtml site ''https://example.com/news/42'' = Inr (Some ''<engineer>'')"
    "findTitle_App site ''<engineer>'' = ''Engineers wanted at Example''"
    by code_simp+
  show ?thesis
    using partial_failure [of site
        "[''https://example.com/jobs/clerk'', ''https://example.com/news/42'']"] f g
    by auto
qed

end
